theory Spec2Isabelle
  imports Main "HOL-Library.AList" "HOL-Library.Sublist"
begin

section \<open>Python strings\<close>

text \<open>
  A Python \<open>str\<close> is modelled as a \<open>string\<close> whose characters are the code points
  below 256. The operations below are the ones the validators use. \<open>upper\<close> and
  \<open>lower\<close> change the ASCII letters only: no code point outside ASCII has an upper-case
  form that is one of the letters of a reserved device name, and none has the lower-case
  form \<open>y\<close>, so the tests made with them give the answers Python gives.
\<close>

definition ascii_lowercase :: string where
  "ascii_lowercase = ''abcdefghijklmnopqrstuvwxyz''"

definition ascii_uppercase :: string where
  "ascii_uppercase = ''ABCDEFGHIJKLMNOPQRSTUVWXYZ''"

definition digits :: string where
  "digits = ''0123456789''"

definition upper_char :: "char \<Rightarrow> char" where
  "upper_char c = (case map_of (zip ascii_lowercase ascii_uppercase) c of
                     Some u \<Rightarrow> u | None \<Rightarrow> c)"

definition lower_char :: "char \<Rightarrow> char" where
  "lower_char c = (case map_of (zip ascii_uppercase ascii_lowercase) c of
                     Some l \<Rightarrow> l | None \<Rightarrow> c)"

definition upper :: "string \<Rightarrow> string" where
  "upper s = map upper_char s"

definition lower :: "string \<Rightarrow> string" where
  "lower s = map lower_char s"

text \<open>\<open>str.isspace\<close> on the code points below 256.\<close>

definition is_space :: "char \<Rightarrow> bool" where
  "is_space c = (c \<in> set [CHR 0x09, CHR 0x0A, CHR 0x0B, CHR 0x0C, CHR 0x0D,
                            CHR 0x1C, CHR 0x1D, CHR 0x1E, CHR 0x1F, CHR 0x20,
                            CHR 0x85, CHR 0xA0])"

definition strip :: "string \<Rightarrow> string" where
  "strip s = rev (dropWhile is_space (rev (dropWhile is_space s)))"

text \<open>\<open>s.strip(c)\<close> for a single character \<open>c\<close>.\<close>

definition strip_char :: "char \<Rightarrow> string \<Rightarrow> string" where
  "strip_char c s = rev (dropWhile (\<lambda>x. x = c) (rev (dropWhile (\<lambda>x. x = c) s)))"

text \<open>\<open>s.split(sep)\<close> for a single character \<open>sep\<close>: never the empty list.\<close>

fun split :: "char \<Rightarrow> string \<Rightarrow> string list" where
  "split sep [] = [[]]"
| "split sep (c # cs) =
     (if c = sep then [] # split sep cs
      else (case split sep cs of
              w # ws \<Rightarrow> (c # w) # ws
            | [] \<Rightarrow> [[c]]))"

text \<open>\<open>needle in hay\<close> on strings.\<close>

fun contains :: "string \<Rightarrow> string \<Rightarrow> bool" where
  "contains needle [] = (needle = [])"
| "contains needle (c # cs) = (prefix needle (c # cs) \<or> contains needle cs)"

definition startswith :: "string \<Rightarrow> string \<Rightarrow> bool" where
  "startswith s p = prefix p s"

definition endswith :: "string \<Rightarrow> string \<Rightarrow> bool" where
  "endswith s p = suffix p s"

text \<open>\<open>s.replace(old, new)\<close> for a non-empty \<open>old\<close>: every occurrence, left to right.\<close>

function replace :: "string \<Rightarrow> string \<Rightarrow> string \<Rightarrow> string" where
  "replace old new [] = []"
| "replace old new (c # cs) =
     (if old \<noteq> [] \<and> prefix old (c # cs)
      then new @ replace old new (drop (length old) (c # cs))
      else c # replace old new cs)"
  by pat_completeness auto
termination
  by (relation "measure (\<lambda>(old, new, s). length s)") (auto simp: prefix_def)

section \<open>file_ops.py: validation of file names and paths\<close>

text \<open>The character class \<open>[<>:"/\\|?*]\<close> of \<open>is_valid_filename\<close>.\<close>

definition invalid_chars :: "char list" where
  "invalid_chars = [CHR ''<'', CHR ''>'', CHR '':'', CHR 0x22, CHR ''/'', CHR 0x5C,
                    CHR ''|'', CHR ''?'', CHR ''*'']"

text \<open>\<open>re.search\<close> of a character class: some character of the string is in the class.\<close>

definition re_search_class :: "char list \<Rightarrow> string \<Rightarrow> bool" where
  "re_search_class cls s = list_ex (\<lambda>c. c \<in> set cls) s"

definition reserved_names :: "string list" where
  "reserved_names =
     [''CON'', ''PRN'', ''AUX'', ''NUL'',
      ''COM1'', ''COM2'', ''COM3'', ''COM4'', ''COM5'', ''COM6'', ''COM7'', ''COM8'', ''COM9'',
      ''LPT1'', ''LPT2'', ''LPT3'', ''LPT4'', ''LPT5'', ''LPT6'', ''LPT7'', ''LPT8'', ''LPT9'']"

definition is_valid_filename :: "string \<Rightarrow> bool" where
  "is_valid_filename filename =
     (if re_search_class invalid_chars filename then False
      else if upper (hd (split CHR ''.'' filename)) \<in> set reserved_names then False
      else if length filename > 255 then False
      else if strip filename = [] then False
      else True)"

section \<open>pathlib, on a POSIX system\<close>

text \<open>
  A \<open>Path\<close> object is its root (\<open>''''\<close>, \<open>''/''\<close> or \<open>''//''\<close>) and the list of its other
  components. The constructor splits the string at \<open>/\<close> and drops the empty components
  and the components \<open>.\<close>; it keeps \<open>..\<close>.
\<close>

record path =
  p_root :: string
  p_tail :: "string list"

definition splitroot :: "string \<Rightarrow> string \<times> string" where
  "splitroot s =
     (if take 1 s \<noteq> ''/'' then ('''', s)
      else if take 1 (drop 1 s) \<noteq> ''/'' \<or> take 1 (drop 2 s) = ''/'' then (''/'', drop 1 s)
      else (''//'', drop 2 s))"

definition Path :: "string \<Rightarrow> path" where
  "Path s = (case splitroot s of (r, rel) \<Rightarrow>
               \<lparr>p_root = r, p_tail = filter (\<lambda>x. x \<noteq> [] \<and> x \<noteq> ''.'') (split CHR ''/'' rel)\<rparr>)"

definition parts :: "path \<Rightarrow> string list" where
  "parts p = (if p_root p = [] then [] else [p_root p]) @ p_tail p"

definition name :: "path \<Rightarrow> string" where
  "name p = (if p_tail p = [] then [] else last (p_tail p))"

definition parent :: "path \<Rightarrow> path" where
  "parent p = (if p_tail p = [] then p else p\<lparr>p_tail := butlast (p_tail p)\<rparr>)"

text \<open>\<open>p / s\<close>: an absolute right operand replaces the left one.\<close>

definition joinpath :: "path \<Rightarrow> string \<Rightarrow> path" where
  "joinpath p s = (if startswith s ''/'' then Path s
                   else p\<lparr>p_tail := p_tail p @ p_tail (Path s)\<rparr>)"

fun join_with :: "string \<Rightarrow> string list \<Rightarrow> string" where
  "join_with sep [] = []"
| "join_with sep [x] = x"
| "join_with sep (x # y # ys) = x @ sep @ join_with sep (y # ys)"

definition str_path :: "path \<Rightarrow> string" where
  "str_path p = (if p_root p = [] \<and> p_tail p = [] then ''.''
                 else p_root p @ join_with ''/'' (p_tail p))"

definition is_valid_path :: "string \<Rightarrow> bool" where
  "is_valid_path p =
     (let path_obj = Path p in
      if ''..'' \<in> set (parts path_obj) then False
      else list_all is_valid_filename (parts path_obj))"

section \<open>Exceptions and the world outside the program\<close>

text \<open>
  An exception is its class and its message (\<open>str(e)\<close>). Every class below derives from
  Python's \<open>Exception\<close>, except \<open>KeyboardInterrupt\<close>, which stands for the classes
  that derive from \<open>BaseException\<close> only and that an \<open>except Exception\<close> clause lets
  through.
\<close>

datatype exn_class =
    FileNotFoundError | FileExistsError | NotADirectoryError | EOFError | ValueError
  | InvalidGitRepositoryError | NoSuchPathError | GitCommandError | ValidationError
  | KeyError | HTTPException nat | OtherException | KeyboardInterrupt

datatype exn = Exc exn_class string

definition is_Exception :: "exn_class \<Rightarrow> bool" where
  "is_Exception c = (c \<noteq> KeyboardInterrupt)"

fun exn_cls :: "exn \<Rightarrow> exn_class" where
  "exn_cls (Exc c m) = c"

fun str_exn :: "exn \<Rightarrow> string" where
  "str_exn (Exc c m) = m"

datatype kind = File | Dir

text \<open>
  The state of a Git working tree as far as \<open>push_changes\<close> reads or changes it, and the
  calls of the Git library that can raise.
\<close>

record repo =
  dirty :: bool
  untracked_files :: "string list"
  staged :: bool
  commits :: "string list"
  origin_url :: "string option"
  pushed :: "(string \<times> string) list"

datatype git_call =
    RepoOpen | IsDirty | UntrackedFiles | GitAdd | IndexCommit | RemoteOrigin | SetUrl
  | RemoteUrl | RemotePush | CloneFrom | ConfigInit

datatype level = DEBUG | INFO | WARNING | ERROR

text \<open>
  The world: a file system without symbolic links and without permissions (a map from
  canonical absolute paths, as lists of names below the root, to the kind of the entry;
  the root itself is always a directory), the working directory, the lines waiting on
  standard input, the Git working trees by canonical path, the library calls that raise
  (and what they raise), the configured token (empty when none) and default branch, and
  the messages logged so far.
\<close>

record world =
  files :: "(string list \<times> kind) list"
  cwd :: "string list"
  stdin :: "string list"
  repos :: "(string list \<times> repo) list"
  raises :: "git_call \<Rightarrow> exn option"
  github_token :: string
  default_branch :: string
  logs :: "(level \<times> string) list"

definition log :: "level \<Rightarrow> string \<Rightarrow> world \<Rightarrow> world" where
  "log l m w = w\<lparr>logs := logs w @ [(l, m)]\<rparr>"

text \<open>\<open>input()\<close>: the next line of standard input, \<open>EOFError\<close> when there is none.\<close>

definition input :: "world \<Rightarrow> (exn + string) \<times> world" where
  "input w = (case stdin w of
                [] \<Rightarrow> (Inl (Exc EOFError ''EOF when reading a line''), w)
              | l # ls \<Rightarrow> (Inr l, w\<lparr>stdin := ls\<rparr>))"

subsection \<open>The file system calls\<close>

definition node :: "(string list \<times> kind) list \<Rightarrow> string list \<Rightarrow> kind option" where
  "node fs q = (if q = [] then Some Dir else map_of fs q)"

text \<open>
  Path lookup: each component is looked up in a directory that must exist; \<open>..\<close> goes
  to the parent. The result is the canonical place the path names, which need not exist.
\<close>

fun walk :: "(string list \<times> kind) list \<Rightarrow> string list \<Rightarrow> string list \<Rightarrow> exn + string list" where
  "walk fs cur [] = Inr cur"
| "walk fs cur (c # cs) =
     (case node fs cur of
        None \<Rightarrow> Inl (Exc FileNotFoundError ''No such file or directory'')
      | Some File \<Rightarrow> Inl (Exc NotADirectoryError ''Not a directory'')
      | Some Dir \<Rightarrow> walk fs (if c = ''..'' then butlast cur else cur @ [c]) cs)"

definition locate :: "world \<Rightarrow> path \<Rightarrow> exn + string list" where
  "locate w p = walk (files w) (if p_root p = [] then cwd w else []) (p_tail p)"

definition stat :: "world \<Rightarrow> path \<Rightarrow> exn + kind" where
  "stat w p = (case locate w p of
                 Inl e \<Rightarrow> Inl e
               | Inr q \<Rightarrow> (case node (files w) q of
                             None \<Rightarrow> Inl (Exc FileNotFoundError ''No such file or directory'')
                           | Some k \<Rightarrow> Inr k))"

definition exists :: "world \<Rightarrow> path \<Rightarrow> bool" where
  "exists w p = (case stat w p of Inl e \<Rightarrow> False | Inr k \<Rightarrow> True)"

definition is_dir :: "world \<Rightarrow> path \<Rightarrow> bool" where
  "is_dir w p = (stat w p = Inr Dir)"

definition is_file :: "world \<Rightarrow> path \<Rightarrow> bool" where
  "is_file w p = (stat w p = Inr File)"

text \<open>\<open>any(p.iterdir())\<close> for a directory \<open>p\<close>: it has an entry.\<close>

definition any_iterdir :: "world \<Rightarrow> path \<Rightarrow> exn + bool" where
  "any_iterdir w p = (case locate w p of
                        Inl e \<Rightarrow> Inl e
                      | Inr q \<Rightarrow> Inr (list_ex (\<lambda>(k, v). k \<noteq> [] \<and> butlast k = q) (files w)))"

definition os_mkdir :: "world \<Rightarrow> path \<Rightarrow> exn + world" where
  "os_mkdir w p =
     (case locate w p of
        Inl e \<Rightarrow> Inl e
      | Inr q \<Rightarrow>
          if node (files w) q \<noteq> None then Inl (Exc FileExistsError ''File exists'')
          else if p_tail p = [] then Inl (Exc FileNotFoundError ''No such file or directory'')
          else Inr (w\<lparr>files := AList.update q Dir (files w)\<rparr>))"

text \<open>\<open>p.mkdir(parents=False, exist_ok=True)\<close>.\<close>

definition mkdir_exist_ok :: "world \<Rightarrow> path \<Rightarrow> exn + world" where
  "mkdir_exist_ok w p =
     (case os_mkdir w p of
        Inr w' \<Rightarrow> Inr w'
      | Inl e \<Rightarrow> if exn_cls e = FileNotFoundError then Inl e
                 else if is_dir w p then Inr w else Inl e)"

text \<open>\<open>p.mkdir(parents=True, exist_ok=True)\<close>, which recurses on the parent.\<close>

function mkdir_parents :: "world \<Rightarrow> path \<Rightarrow> exn + world" where
  "mkdir_parents w p =
     (case os_mkdir w p of
        Inr w' \<Rightarrow> Inr w'
      | Inl e \<Rightarrow>
          if exn_cls e = FileNotFoundError then
            (if p_tail p = [] then Inl e
             else (case mkdir_parents w (p\<lparr>p_tail := butlast (p_tail p)\<rparr>) of
                     Inl e' \<Rightarrow> Inl e'
                   | Inr w' \<Rightarrow> mkdir_exist_ok w' p))
          else if is_dir w p then Inr w else Inl e)"
  by pat_completeness auto
termination
  by (relation "measure (\<lambda>(w, p). length (p_tail p))") auto

declare mkdir_parents.simps [simp del]

text \<open>\<open>p.touch()\<close>: an existing entry is left as it is, a missing one becomes a file.\<close>

definition touch :: "world \<Rightarrow> path \<Rightarrow> exn + world" where
  "touch w p =
     (if exists w p then Inr w
      else (case locate w p of
              Inl e \<Rightarrow> Inl e
            | Inr q \<Rightarrow> Inr (w\<lparr>files := AList.update q File (files w)\<rparr>)))"

section \<open>file_ops.py: creating directories and files\<close>

text \<open>
  Every method of \<open>FileOperations\<close> catches every exception of its body and returns
  \<open>False\<close>; the model returns the result and the world after the call. The log messages
  of these methods are left out: nothing depends on them.
\<close>

definition create_directory :: "world \<Rightarrow> path \<Rightarrow> bool \<Rightarrow> bool \<times> world" where
  "create_directory w path_obj dry_run =
     (if exists w path_obj then
        (if is_dir w path_obj then (True, w) else (False, w))
      else if dry_run then (True, w)
      else (case mkdir_parents w path_obj of
              Inl e \<Rightarrow> (False, w)
            | Inr w' \<Rightarrow> (True, w')))"

text \<open>The part of \<open>create_file\<close> after the check of an existing file.\<close>

definition create_file_new :: "world \<Rightarrow> path \<Rightarrow> bool \<Rightarrow> bool \<times> world" where
  "create_file_new w path_obj dry_run =
     (case create_directory w (parent path_obj) dry_run of
        (ok, w1) \<Rightarrow>
          if \<not> ok then (False, w1)
          else if dry_run then (True, w1)
          else (case touch w1 path_obj of
                  Inl e \<Rightarrow> (False, w1)
                | Inr w2 \<Rightarrow> (True, w2)))"

definition create_file :: "world \<Rightarrow> string \<Rightarrow> bool \<Rightarrow> bool \<Rightarrow> bool \<times> world" where
  "create_file w file_path dry_run overwrite =
     (let path_obj = Path file_path in
      if \<not> is_valid_filename (name path_obj) then (False, w)
      else if exists w path_obj then
        (if \<not> overwrite then
           (case input w of
              (Inl e, w1) \<Rightarrow> (False, w1)
            | (Inr response, w1) \<Rightarrow>
                if lower response \<noteq> ''y'' then (False, w1)
                else if dry_run then (True, w1)
                else create_file_new w1 path_obj dry_run)
         else if dry_run then (True, w)
         else create_file_new w path_obj dry_run)
      else create_file_new w path_obj dry_run)"

definition add_file_to_section ::
  "world \<Rightarrow> string \<Rightarrow> string \<Rightarrow> string \<Rightarrow> bool \<Rightarrow> bool \<Rightarrow> bool \<times> world" where
  "add_file_to_section w repo_path section filename dry_run overwrite =
     (let repo_path_obj = Path repo_path in
      if \<not> exists w repo_path_obj then (False, w)
      else if \<not> is_dir w repo_path_obj then (False, w)
      else if \<not> is_valid_path section then (False, w)
      else
        let section_path = joinpath repo_path_obj section;
            file_path = joinpath section_path filename
        in create_file w (str_path file_path) dry_run overwrite)"

section \<open>git_ops.py: validation of the repository URL\<close>

text \<open>
  \<open>urllib.parse.urlparse\<close> of the Python standard library (CPython 3.12), reduced to
  the two fields the validator reads. Leading control characters and spaces are dropped,
  tabs and newlines are removed, a scheme is split off at the first colon, the network
  location is what follows \<open>//\<close> up to the next \<open>/\<close>, \<open>?\<close> or \<open>#\<close>, and the path
  loses its fragment, its query and the parameters of its last segment. The library
  raises \<open>ValueError\<close> for unbalanced brackets in the network location; its other
  checks raise only for a network location with a bracket or a character outside ASCII.
\<close>

record parse_result =
  scheme :: string
  netloc :: string
  url_path :: string

definition scheme_chars :: string where
  "scheme_chars = ascii_lowercase @ ascii_uppercase @ digits @ ''+-.''"

definition uses_params :: "string list" where
  "uses_params = ['''', ''ftp'', ''hdl'', ''prospero'', ''http'', ''imap'', ''https'', ''shttp'',
                  ''rtsp'', ''rtspu'', ''sip'', ''sips'', ''mms'', ''sftp'', ''tel'']"

definition is_c0_or_space :: "char \<Rightarrow> bool" where
  "is_c0_or_space c = (of_char c \<le> (32::nat))"

definition split_scheme :: "string \<Rightarrow> string \<times> string" where
  "split_scheme url =
     (let pre = takeWhile (\<lambda>c. c \<noteq> CHR '':'') url in
      if CHR '':'' \<in> set url \<and> pre \<noteq> []
         \<and> hd pre \<in> set (ascii_lowercase @ ascii_uppercase)
         \<and> list_all (\<lambda>c. c \<in> set scheme_chars) pre
      then (lower pre, drop (length pre + 1) url)
      else ('''', url))"

definition splitparams :: "string \<Rightarrow> string" where
  "splitparams url =
     (let seg = rev (takeWhile (\<lambda>c. c \<noteq> CHR ''/'') (rev url));
          pre = take (length url - length seg) url
      in pre @ takeWhile (\<lambda>c. c \<noteq> CHR '';'') seg)"

definition urlparse :: "string \<Rightarrow> exn + parse_result" where
  "urlparse url0 =
     (let url1 = filter (\<lambda>c. c \<notin> set [CHR 0x09, CHR 0x0D, CHR 0x0A])
                   (dropWhile is_c0_or_space url0)
      in case split_scheme url1 of (sch, url2) \<Rightarrow>
        let nl = (if take 2 url2 = ''//''
                  then takeWhile (\<lambda>c. c \<notin> set ''/?#'') (drop 2 url2) else '''');
            url3 = (if take 2 url2 = ''//''
                    then dropWhile (\<lambda>c. c \<notin> set ''/?#'') (drop 2 url2) else url2)
        in if (CHR ''['' \<in> set nl) \<noteq> (CHR '']'' \<in> set nl)
           then Inl (Exc ValueError ''Invalid IPv6 URL'')
           else
             let url4 = takeWhile (\<lambda>c. c \<noteq> CHR ''?'') (takeWhile (\<lambda>c. c \<noteq> CHR ''#'') url3);
                 url5 = (if sch \<in> set uses_params \<and> CHR '';'' \<in> set url4
                         then splitparams url4 else url4)
             in Inr \<lparr>scheme = sch, netloc = nl, url_path = url5\<rparr>)"

text \<open>
  \<open>valid_pattern.match(s)\<close> for the pattern \<open>^[a-zA-Z0-9._-]+$\<close>: one or more
  characters of the class; \<open>$\<close> also matches before a newline that ends the string.
\<close>

definition valid_chars :: string where
  "valid_chars = ascii_lowercase @ ascii_uppercase @ digits @ ''._-''"

definition valid_pattern_match :: "string \<Rightarrow> bool" where
  "valid_pattern_match s =
     (let body = (if s \<noteq> [] \<and> last s = CHR 0x0A then butlast s else s)
      in body \<noteq> [] \<and> list_all (\<lambda>c. c \<in> set valid_chars) body)"

definition is_valid_repo_url :: "string \<Rightarrow> bool" where
  "is_valid_repo_url url =
     (case urlparse url of
        Inl e \<Rightarrow> False
      | Inr parsed \<Rightarrow>
          if netloc parsed \<notin> set [''github.com'', ''www.github.com''] then False
          else
            let path_parts = split CHR ''/'' (strip_char CHR ''/'' (url_path parsed)) in
            if length path_parts < 2 then False
            else
              let username = path_parts ! 0; repo = path_parts ! 1 in
              if username = [] \<or> repo = [] then False
              else
                let repo = (if endswith repo ''.git'' then take (length repo - 4) repo else repo)
                in if \<not> valid_pattern_match username \<or> \<not> valid_pattern_match repo then False
                   else True)"

section \<open>git_ops.py: the Git library\<close>

text \<open>
  The calls of GitPython that the program makes, reduced to what the program can observe:
  each raises what the world says it raises, and otherwise reads or changes the
  working tree it is made on.
\<close>

text \<open>\<open>Repo(path)\<close>: the working tree at the path, named by its canonical place.\<close>

definition Repo :: "world \<Rightarrow> string \<Rightarrow> exn + string list" where
  "Repo w path =
     (case raises w RepoOpen of
        Some e \<Rightarrow> Inl e
      | None \<Rightarrow>
          (case locate w (Path path) of
             Inl e \<Rightarrow> Inl (Exc NoSuchPathError path)
           | Inr q \<Rightarrow>
               if node (files w) q = None then Inl (Exc NoSuchPathError path)
               else if map_of (repos w) q = None then Inl (Exc InvalidGitRepositoryError path)
               else Inr q))"

definition lib ::
  "world \<Rightarrow> git_call \<Rightarrow> string list \<Rightarrow> (repo \<Rightarrow> exn + 'a \<times> repo) \<Rightarrow> (exn + 'a) \<times> world" where
  "lib w c q f =
     (case raises w c of
        Some e \<Rightarrow> (Inl e, w)
      | None \<Rightarrow>
          (case map_of (repos w) q of
             None \<Rightarrow> (Inl (Exc InvalidGitRepositoryError []), w)
           | Some r \<Rightarrow>
               (case f r of
                  Inl e \<Rightarrow> (Inl e, w)
                | Inr (a, r') \<Rightarrow> (Inr a, w\<lparr>repos := AList.update q r' (repos w)\<rparr>))))"

definition repo_is_dirty :: "world \<Rightarrow> string list \<Rightarrow> (exn + bool) \<times> world" where
  "repo_is_dirty w q = lib w IsDirty q (\<lambda>r. Inr (dirty r, r))"

definition repo_untracked_files :: "world \<Rightarrow> string list \<Rightarrow> (exn + string list) \<times> world" where
  "repo_untracked_files w q = lib w UntrackedFiles q (\<lambda>r. Inr (untracked_files r, r))"

definition git_add_all :: "world \<Rightarrow> string list \<Rightarrow> (exn + unit) \<times> world" where
  "git_add_all w q = lib w GitAdd q (\<lambda>r. Inr ((), r\<lparr>staged := True, untracked_files := []\<rparr>))"

definition index_commit :: "world \<Rightarrow> string list \<Rightarrow> string \<Rightarrow> (exn + unit) \<times> world" where
  "index_commit w q msg =
     lib w IndexCommit q
       (\<lambda>r. Inr ((), r\<lparr>commits := commits r @ [msg], staged := False, dirty := False\<rparr>))"

text \<open>\<open>repo.remote('origin')\<close> raises \<open>ValueError\<close> when there is no such remote.\<close>

definition repo_remote_origin :: "world \<Rightarrow> string list \<Rightarrow> (exn + unit) \<times> world" where
  "repo_remote_origin w q =
     lib w RemoteOrigin q
       (\<lambda>r. case origin_url r of
               None \<Rightarrow> Inl (Exc ValueError ''Remote named origin did not exist'')
             | Some u \<Rightarrow> Inr ((), r))"

definition remote_url :: "world \<Rightarrow> string list \<Rightarrow> (exn + string) \<times> world" where
  "remote_url w q =
     lib w RemoteUrl q
       (\<lambda>r. case origin_url r of
               None \<Rightarrow> Inl (Exc ValueError ''Remote named origin did not exist'')
             | Some u \<Rightarrow> Inr (u, r))"

definition remote_set_url :: "world \<Rightarrow> string list \<Rightarrow> string \<Rightarrow> (exn + unit) \<times> world" where
  "remote_set_url w q u = lib w SetUrl q (\<lambda>r. Inr ((), r\<lparr>origin_url := Some u\<rparr>))"

text \<open>\<open>origin.push(branch)\<close>: the push goes to the URL the remote has at that moment.\<close>

definition remote_push :: "world \<Rightarrow> string list \<Rightarrow> string \<Rightarrow> (exn + unit) \<times> world" where
  "remote_push w q branch =
     lib w RemotePush q
       (\<lambda>r. case origin_url r of
               None \<Rightarrow> Inl (Exc GitCommandError ''origin does not appear to be a git repository'')
             | Some u \<Rightarrow> Inr ((), r\<lparr>pushed := pushed r @ [(u, branch)]\<rparr>))"

text \<open>\<open>Repo.clone_from(url, path)\<close>: a new working tree at the path, with the URL as origin.\<close>

definition clone_from :: "world \<Rightarrow> string \<Rightarrow> string \<Rightarrow> exn + world" where
  "clone_from w url path =
     (case raises w CloneFrom of
        Some e \<Rightarrow> Inl e
      | None \<Rightarrow>
          (case locate w (Path path) of
             Inl e \<Rightarrow> Inl (Exc GitCommandError ''could not create work tree dir'')
           | Inr q \<Rightarrow>
               Inr (w\<lparr>files := AList.update q Dir (files w),
                      repos := AList.update q
                                 \<lparr>dirty = False, untracked_files = [], staged = False,
                                  commits = [], origin_url = Some url, pushed = []\<rparr>
                                 (repos w)\<rparr>)))"

subsection \<open>config.py, as far as git_ops.py reads it\<close>

definition get_default_branch :: "world \<Rightarrow> string" where
  "get_default_branch w = default_branch w"

definition get_github_token :: "world \<Rightarrow> string option \<times> world" where
  "get_github_token w =
     (if github_token w = [] then
        (None, log ERROR
           ''GitHub token not found. Please run 'mcp init' or set GITHUB_TOKEN environment variable.'' w)
      else (Some (github_token w), w))"

section \<open>git_ops.py: GitOperations\<close>

definition is_git_repository :: "world \<Rightarrow> string \<Rightarrow> exn + bool" where
  "is_git_repository w path =
     (case Repo w path of
        Inr q \<Rightarrow> Inr True
      | Inl e \<Rightarrow>
          if exn_cls e = InvalidGitRepositoryError then Inr False
          else if is_Exception (exn_cls e) then Inr False
          else Inl e)"

text \<open>The block of \<open>clone_repository\<close> that looks at an existing local path:
  whether the clone goes on.\<close>

definition clone_check_existing :: "world \<Rightarrow> string \<Rightarrow> (exn + bool) \<times> world" where
  "clone_check_existing w local_path =
     (let local_path_obj = Path local_path in
      if exists w local_path_obj then
        (case (if is_dir w local_path_obj then any_iterdir w local_path_obj else Inr False) of
           Inl e \<Rightarrow> (Inl e, w)
         | Inr True \<Rightarrow>
             (case is_git_repository w local_path of
                Inl e \<Rightarrow> (Inl e, w)
              | Inr is_repo \<Rightarrow>
                  let w1 = (if is_repo
                            then log WARNING (''Directory '' @ local_path
                                   @ '' already contains a Git repository'') w
                            else log WARNING (''Directory '' @ local_path @ '' is not empty'') w)
                  in (case input w1 of
                        (Inl e, w2) \<Rightarrow> (Inl e, w2)
                      | (Inr response, w2) \<Rightarrow>
                          if lower response \<noteq> ''y''
                          then (Inr False, log INFO ''Clone operation cancelled.'' w2)
                          else (Inr True, w2)))
         | Inr False \<Rightarrow>
             if is_file w local_path_obj
             then (Inr False, log ERROR (''Path '' @ local_path
                     @ '' exists and is a file, not a directory'') w)
             else (Inr True, w))
      else (Inr True, w))"

definition clone_body :: "world \<Rightarrow> string \<Rightarrow> string \<Rightarrow> bool \<Rightarrow> (exn + bool) \<times> world" where
  "clone_body w repo_url local_path dry_run =
     (if \<not> is_valid_repo_url repo_url
      then (Inr False, log ERROR (''Invalid repository URL: '' @ repo_url) w)
      else
        (case clone_check_existing w local_path of
           (Inl e, w1) \<Rightarrow> (Inl e, w1)
         | (Inr False, w1) \<Rightarrow> (Inr False, w1)
         | (Inr True, w1) \<Rightarrow>
             if dry_run
             then (Inr True, log INFO (''[DRY RUN] Would clone '' @ repo_url @ '' to ''
                     @ local_path) w1)
             else
               (case mkdir_parents w1 (parent (Path local_path)) of
                  Inl e \<Rightarrow> (Inl e, w1)
                | Inr w2 \<Rightarrow>
                    let w3 = log INFO (''Cloning repository '' @ repo_url @ '' to ''
                               @ local_path @ ''...'') w2
                    in (case clone_from w3 repo_url local_path of
                          Inl e \<Rightarrow> (Inl e, w3)
                        | Inr w4 \<Rightarrow>
                            (Inr True, log INFO (''Successfully cloned repository to ''
                               @ local_path) w4)))))"

definition clone_error_message :: "string \<Rightarrow> exn \<Rightarrow> string" where
  "clone_error_message repo_url e =
     (if exn_cls e = GitCommandError then
        (if contains ''Authentication failed'' (str_exn e)
            \<or> contains ''access denied'' (lower (str_exn e))
         then ''Authentication failed. Please check your GitHub token.''
         else if contains ''not found'' (lower (str_exn e))
         then ''Repository not found: '' @ repo_url
         else ''Git error during clone: '' @ str_exn e)
      else ''Failed to clone repository: '' @ str_exn e)"

text \<open>The two \<open>except\<close> clauses: \<open>GitCommandError\<close>, then \<open>Exception\<close>; an exception
  that matches neither goes on to the caller.\<close>

definition clone_repository :: "world \<Rightarrow> string \<Rightarrow> string \<Rightarrow> bool \<Rightarrow> (exn + bool) \<times> world" where
  "clone_repository w repo_url local_path dry_run =
     (case clone_body w repo_url local_path dry_run of
        (Inr b, w1) \<Rightarrow> (Inr b, w1)
      | (Inl e, w1) \<Rightarrow>
          if exn_cls e = GitCommandError \<or> is_Exception (exn_cls e)
          then (Inr False, log ERROR (clone_error_message repo_url e) w1)
          else (Inl e, w1))"

text \<open>\<open>push_changes\<close> from the push to the remote on.\<close>

definition push_to_remote :: "world \<Rightarrow> string list \<Rightarrow> (exn + bool) \<times> world" where
  "push_to_remote w q =
     (let branch = get_default_branch w in
      case repo_remote_origin w q of
        (Inl e, w1) \<Rightarrow> (Inl e, w1)
      | (Inr u, w1) \<Rightarrow>
          (case get_github_token w1 of
             (token, w2) \<Rightarrow>
               (case (case token of
                        None \<Rightarrow> (Inr (), w2)
                      | Some tok \<Rightarrow>
                          (case remote_url w2 q of
                             (Inl e, w3) \<Rightarrow> (Inl e, w3)
                           | (Inr url, w3) \<Rightarrow>
                               if startswith url ''https://github.com/''
                               then remote_set_url w3 q
                                      (replace ''https://github.com/''
                                         (''https://'' @ tok @ ''@github.com/'') url)
                               else (Inr (), w3))) of
                  (Inl e, w4) \<Rightarrow> (Inl e, w4)
                | (Inr u', w4) \<Rightarrow>
                    let w5 = log INFO ''Pushing changes to remote repository...'' w4 in
                    (case remote_push w5 q branch of
                       (Inl e, w6) \<Rightarrow> (Inl e, w6)
                     | (Inr u'', w6) \<Rightarrow>
                         (Inr True, log INFO ''Successfully pushed changes to GitHub'' w6)))))"

text \<open>\<open>push_changes\<close> from the staging on.\<close>

definition stage_commit_push :: "world \<Rightarrow> string list \<Rightarrow> string \<Rightarrow> (exn + bool) \<times> world" where
  "stage_commit_push w q commit_message =
     (case git_add_all w q of
        (Inl e, w1) \<Rightarrow> (Inl e, w1)
      | (Inr u, w1) \<Rightarrow>
          let w2 = log INFO ''Staged all changes'' w1 in
          (case index_commit w2 q commit_message of
             (Inl e, w3) \<Rightarrow> (Inl e, w3)
           | (Inr u', w3) \<Rightarrow>
               push_to_remote
                 (log INFO (''Committed changes with message: ''
                    @ [CHR 0x27] @ commit_message @ [CHR 0x27]) w3) q))"

text \<open>\<open>not repo.is_dirty() and not repo.untracked_files\<close>: the second operand is
  evaluated only when the first holds.\<close>

definition no_changes :: "world \<Rightarrow> string list \<Rightarrow> (exn + bool) \<times> world" where
  "no_changes w q =
     (case repo_is_dirty w q of
        (Inl e, w1) \<Rightarrow> (Inl e, w1)
      | (Inr d, w1) \<Rightarrow>
          if d then (Inr False, w1)
          else (case repo_untracked_files w1 q of
                  (Inl e, w2) \<Rightarrow> (Inl e, w2)
                | (Inr u, w2) \<Rightarrow> (Inr (u = []), w2)))"

definition push_body :: "world \<Rightarrow> string \<Rightarrow> string \<Rightarrow> bool \<Rightarrow> (exn + bool) \<times> world" where
  "push_body w local_path commit_message dry_run =
     (case is_git_repository w local_path of
        Inl e \<Rightarrow> (Inl e, w)
      | Inr False \<Rightarrow>
          (Inr False, log ERROR (''Path '' @ local_path @ '' is not a valid Git repository'') w)
      | Inr True \<Rightarrow>
          (case Repo w local_path of
             Inl e \<Rightarrow> (Inl e, w)
           | Inr q \<Rightarrow>
               (case no_changes w q of
                  (Inl e, w1) \<Rightarrow> (Inl e, w1)
                | (Inr True, w1) \<Rightarrow> (Inr True, log INFO ''No changes to commit'' w1)
                | (Inr False, w1) \<Rightarrow>
                    if dry_run
                    then (Inr True,
                          log INFO ''[DRY RUN] Would push to remote repository''
                            (log INFO (''[DRY RUN] Would stage all changes and commit with message: ''
                               @ [CHR 0x27] @ commit_message @ [CHR 0x27]) w1))
                    else stage_commit_push w1 q commit_message)))"

definition push_error_message :: "exn \<Rightarrow> string" where
  "push_error_message e =
     (if exn_cls e = GitCommandError then
        (if contains ''Authentication failed'' (str_exn e)
            \<or> contains ''access denied'' (lower (str_exn e))
         then ''Authentication failed. Please check your GitHub token.''
         else if contains ''rejected'' (lower (str_exn e))
         then ''Push rejected. You may need to pull changes first.''
         else ''Git error during push: '' @ str_exn e)
      else ''Failed to push changes: '' @ str_exn e)"

definition push_changes :: "world \<Rightarrow> string \<Rightarrow> string \<Rightarrow> bool \<Rightarrow> (exn + bool) \<times> world" where
  "push_changes w local_path commit_message dry_run =
     (case push_body w local_path commit_message dry_run of
        (Inr b, w1) \<Rightarrow> (Inr b, w1)
      | (Inl e, w1) \<Rightarrow>
          if exn_cls e = GitCommandError \<or> is_Exception (exn_cls e)
          then (Inr False, log ERROR (push_error_message e) w1)
          else (Inl e, w1))"

section \<open>server.py: the operation store\<close>

text \<open>
  The values of the dictionaries the server keeps, and a dictionary as an association
  list: \<open>AList.update\<close> replaces the value of a key in place or adds the key at the end,
  as an assignment to \<open>d[k]\<close> does. A \<open>datetime\<close> is a number; \<open>datetime.min\<close> is 0.
\<close>

datatype pyval = PNone | PStr string | PBool bool | PDatetime nat | PDict "(string \<times> pyval) list"

type_synonym pydict = "(string \<times> pyval) list"

text \<open>\<open>active_operations\<close>: operation id to operation.\<close>

type_synonym store = "(string \<times> pydict) list"

text \<open>\<open>d.update(kvs)\<close>.\<close>

definition dict_update :: "pydict \<Rightarrow> pydict \<Rightarrow> pydict" where
  "dict_update d kvs = fold (\<lambda>(k, v). AList.update k v) kvs d"

text \<open>The identifier \<open>str(uuid.uuid4())\<close> and the time \<open>datetime.now()\<close> are given.\<close>

definition create_operation :: "store \<Rightarrow> string \<Rightarrow> pydict \<Rightarrow> string \<Rightarrow> nat \<Rightarrow> string \<times> store" where
  "create_operation ops operation_type params uuid4 now =
     (let operation_id = uuid4 in
      (operation_id,
       AList.update operation_id
         [(''id'', PStr operation_id),
          (''type'', PStr operation_type),
          (''status'', PStr ''pending''),
          (''message'', PStr (''Operation '' @ operation_type @ '' created'')),
          (''params'', PDict params),
          (''created_at'', PDatetime now),
          (''completed_at'', PNone),
          (''result'', PNone),
          (''error'', PNone)]
         ops))"

definition update_operation ::
  "store \<Rightarrow> string \<Rightarrow> string \<Rightarrow> string \<Rightarrow> pyval \<Rightarrow> pyval \<Rightarrow> nat \<Rightarrow> store" where
  "update_operation ops operation_id status message result error now =
     (case map_of ops operation_id of
        None \<Rightarrow> ops
      | Some operation \<Rightarrow>
          let op1 = dict_update operation
                      [(''status'', PStr status), (''message'', PStr message),
                       (''result'', result), (''error'', error)];
              op2 = (if status \<in> set [''completed'', ''failed'']
                     then AList.update ''completed_at'' (PDatetime now) op1 else op1)
          in AList.update operation_id op2 ops)"

section \<open>server.py: the background jobs\<close>

text \<open>The body of the \<open>try\<close> of \<open>execute_clone_operation\<close> after the first update.
  \<open>MCPConfig()\<close> and \<open>GitOperations(config)\<close> raise what the world says.\<close>

definition clone_job :: "world \<Rightarrow> string \<Rightarrow> string \<Rightarrow> (exn + bool) \<times> world" where
  "clone_job w repo_url local_path =
     (case raises w ConfigInit of
        Some e \<Rightarrow> (Inl e, w)
      | None \<Rightarrow>
          if \<not> is_valid_repo_url repo_url
          then (Inl (Exc ValueError (''Invalid repository URL: '' @ repo_url)), w)
          else clone_repository w repo_url local_path False)"

definition execute_clone_operation ::
  "store \<Rightarrow> world \<Rightarrow> string \<Rightarrow> string \<Rightarrow> string \<Rightarrow> nat \<Rightarrow> exn option \<times> store \<times> world" where
  "execute_clone_operation ops w operation_id repo_url local_path now =
     (let ops1 = update_operation ops operation_id ''running'' ''Cloning repository...''
                   PNone PNone now
      in case clone_job w repo_url local_path of
           (Inr result, w1) \<Rightarrow>
             (None,
              update_operation ops1 operation_id ''completed'' ''Repository cloned successfully''
                (PDict [(''path'', PStr local_path)]) PNone now,
              log INFO (''Clone operation '' @ operation_id @ '' completed successfully'') w1)
         | (Inl e, w1) \<Rightarrow>
             if is_Exception (exn_cls e) then
               (None,
                update_operation ops1 operation_id ''failed'' ''Clone operation failed''
                  PNone (PStr (str_exn e)) now,
                log ERROR (''Clone operation '' @ operation_id @ '' failed: '' @ str_exn e) w1)
             else (Some e, ops1, w1))"

definition push_job :: "world \<Rightarrow> string \<Rightarrow> string \<Rightarrow> (exn + bool) \<times> world" where
  "push_job w repo_path commit_message =
     (case raises w ConfigInit of
        Some e \<Rightarrow> (Inl e, w)
      | None \<Rightarrow>
          (case is_git_repository w repo_path of
             Inl e \<Rightarrow> (Inl e, w)
           | Inr False \<Rightarrow> (Inl (Exc ValueError (''Not a valid Git repository: '' @ repo_path)), w)
           | Inr True \<Rightarrow> push_changes w repo_path commit_message False))"

definition execute_push_operation ::
  "store \<Rightarrow> world \<Rightarrow> string \<Rightarrow> string \<Rightarrow> string \<Rightarrow> nat \<Rightarrow> exn option \<times> store \<times> world" where
  "execute_push_operation ops w operation_id repo_path commit_message now =
     (let ops1 = update_operation ops operation_id ''running'' ''Pushing changes...''
                   PNone PNone now
      in case push_job w repo_path commit_message of
           (Inr result, w1) \<Rightarrow>
             (None,
              update_operation ops1 operation_id ''completed'' ''Changes pushed successfully''
                (PDict [(''commit_message'', PStr commit_message)]) PNone now,
              log INFO (''Push operation '' @ operation_id @ '' completed successfully'') w1)
         | (Inl e, w1) \<Rightarrow>
             if is_Exception (exn_cls e) then
               (None,
                update_operation ops1 operation_id ''failed'' ''Push operation failed''
                  PNone (PStr (str_exn e)) now,
                log ERROR (''Push operation '' @ operation_id @ '' failed: '' @ str_exn e) w1)
             else (Some e, ops1, w1))"

text \<open>The request's \<open>content\<close> is an optional string; the job passes it as the fourth
  positional argument of \<open>add_file_to_section\<close>, which is \<open>dry_run\<close>, where its truth
  value counts: \<open>None\<close> and the empty string are false.\<close>

definition truthy :: "string option \<Rightarrow> bool" where
  "truthy content = (case content of None \<Rightarrow> False | Some s \<Rightarrow> s \<noteq> [])"

definition add_file_job ::
  "world \<Rightarrow> string \<Rightarrow> string \<Rightarrow> string \<Rightarrow> string option \<Rightarrow> (exn + bool) \<times> world" where
  "add_file_job w repo_path section filename content =
     (if \<not> is_valid_filename filename
      then (Inl (Exc ValueError (''Invalid filename: '' @ filename)), w)
      else if \<not> is_valid_path repo_path
      then (Inl (Exc ValueError (''Invalid repository path: '' @ repo_path)), w)
      else (case add_file_to_section w repo_path section filename (truthy content) False of
              (result, w1) \<Rightarrow> (Inr result, w1)))"

definition execute_add_file_operation ::
  "store \<Rightarrow> world \<Rightarrow> string \<Rightarrow> string \<Rightarrow> string \<Rightarrow> string \<Rightarrow> string option \<Rightarrow> nat
     \<Rightarrow> exn option \<times> store \<times> world" where
  "execute_add_file_operation ops w operation_id repo_path section filename content now =
     (let ops1 = update_operation ops operation_id ''running'' ''Creating file...''
                   PNone PNone now
      in case add_file_job w repo_path section filename content of
           (Inr result, w1) \<Rightarrow>
             (None,
              update_operation ops1 operation_id ''completed'' ''File created successfully''
                (PDict [(''path'', PBool result), (''section'', PStr section),
                        (''filename'', PStr filename)]) PNone now,
              log INFO (''Add file operation '' @ operation_id @ '' completed successfully'') w1)
         | (Inl e, w1) \<Rightarrow>
             if is_Exception (exn_cls e) then
               (None,
                update_operation ops1 operation_id ''failed'' ''Add file operation failed''
                  PNone (PStr (str_exn e)) now,
                log ERROR (''Add file operation '' @ operation_id @ '' failed: '' @ str_exn e) w1)
             else (Some e, ops1, w1))"

section \<open>server.py: the API\<close>

record operation_response =
  r_operation_id :: string
  r_status :: string
  r_message :: string
  r_created_at :: nat
  r_completed_at :: "nat option"
  r_result :: "pydict option"
  r_error :: "string option"

text \<open>
  \<open>OperationResponse(**kw)\<close>, the constructor of the pydantic model: the fields declared
  with \<open>Field(...)\<close> are required, a keyword that is no field is ignored, and a missing
  required field or a value of the wrong type raises \<open>ValidationError\<close>. (The
  conversions pydantic makes between types are left out: the store holds values of the
  declared types only.)
\<close>

definition optional_field :: "pydict \<Rightarrow> string \<Rightarrow> (pyval \<Rightarrow> 'a option) \<Rightarrow> exn + 'a option" where
  "optional_field kw k conv =
     (case map_of kw k of
        None \<Rightarrow> Inr None
      | Some PNone \<Rightarrow> Inr None
      | Some v \<Rightarrow> (case conv v of
                     None \<Rightarrow> Inl (Exc ValidationError k)
                   | Some a \<Rightarrow> Inr (Some a)))"

fun as_str :: "pyval \<Rightarrow> string option" where
  "as_str (PStr s) = Some s"
| "as_str v = None"

fun as_datetime :: "pyval \<Rightarrow> nat option" where
  "as_datetime (PDatetime t) = Some t"
| "as_datetime v = None"

fun as_dict :: "pyval \<Rightarrow> pydict option" where
  "as_dict (PDict d) = Some d"
| "as_dict v = None"

definition OperationResponse :: "pydict \<Rightarrow> exn + operation_response" where
  "OperationResponse kw =
     (case (map_of kw ''operation_id'', map_of kw ''status'', map_of kw ''message'',
            map_of kw ''created_at'') of
        (Some (PStr i), Some (PStr s), Some (PStr m), Some (PDatetime t)) \<Rightarrow>
          (case (optional_field kw ''completed_at'' as_datetime,
                 optional_field kw ''result'' as_dict,
                 optional_field kw ''error'' as_str) of
             (Inr c, Inr r, Inr e) \<Rightarrow>
               Inr \<lparr>r_operation_id = i, r_status = s, r_message = m, r_created_at = t,
                    r_completed_at = c, r_result = r, r_error = e\<rparr>
           | _ \<Rightarrow> Inl (Exc ValidationError ''validation error for OperationResponse''))
      | _ \<Rightarrow> Inl (Exc ValidationError ''validation error for OperationResponse''))"

text \<open>The background tasks an endpoint hands to the framework.\<close>

datatype task =
    CloneTask string string string
  | PushTask string string string
  | AddFileTask string string string string "string option"

text \<open>\<open>active_operations[operation_id]\<close>, then the response built from it.\<close>

definition respond :: "store \<Rightarrow> string \<Rightarrow> exn + operation_response" where
  "respond ops operation_id =
     (case map_of ops operation_id of
        None \<Rightarrow> Inl (Exc KeyError operation_id)
      | Some operation \<Rightarrow> OperationResponse operation)"

text \<open>The three POST endpoints (the first two are named \<open>clone_repository\<close> and
  \<open>push_changes\<close> in \<open>server.py\<close>, as the methods of \<open>GitOperations\<close> are).\<close>

definition api_clone_repository ::
  "store \<Rightarrow> string \<Rightarrow> string \<Rightarrow> string \<Rightarrow> nat \<Rightarrow> (exn + operation_response) \<times> store \<times> task list" where
  "api_clone_repository ops repo_url local_path uuid4 now =
     (case create_operation ops ''clone''
             [(''repo_url'', PStr repo_url), (''local_path'', PStr local_path)] uuid4 now of
        (operation_id, ops1) \<Rightarrow>
          (respond ops1 operation_id, ops1, [CloneTask operation_id repo_url local_path]))"

definition api_push_changes ::
  "store \<Rightarrow> string \<Rightarrow> string \<Rightarrow> string \<Rightarrow> nat \<Rightarrow> (exn + operation_response) \<times> store \<times> task list" where
  "api_push_changes ops repo_path commit_message uuid4 now =
     (case create_operation ops ''push''
             [(''repo_path'', PStr repo_path), (''commit_message'', PStr commit_message)]
             uuid4 now of
        (operation_id, ops1) \<Rightarrow>
          (respond ops1 operation_id, ops1, [PushTask operation_id repo_path commit_message]))"

definition api_add_file ::
  "store \<Rightarrow> string \<Rightarrow> string \<Rightarrow> string \<Rightarrow> string option \<Rightarrow> string \<Rightarrow> nat
     \<Rightarrow> (exn + operation_response) \<times> store \<times> task list" where
  "api_add_file ops repo_path section filename content uuid4 now =
     (case create_operation ops ''add-file''
             [(''repo_path'', PStr repo_path), (''section'', PStr section),
              (''filename'', PStr filename),
              (''content'', case content of None \<Rightarrow> PNone | Some s \<Rightarrow> PStr s)] uuid4 now of
        (operation_id, ops1) \<Rightarrow>
          (respond ops1 operation_id, ops1,
           [AddFileTask operation_id repo_path section filename content]))"

definition get_operation :: "store \<Rightarrow> string \<Rightarrow> exn + operation_response" where
  "get_operation ops operation_id =
     (if operation_id \<notin> fst ` set ops
      then Inl (Exc (HTTPException 404) ''Operation not found'')
      else respond ops operation_id)"

text \<open>The list comprehension of \<open>list_operations\<close>: the first exception ends it.\<close>

fun responses :: "pydict list \<Rightarrow> exn + operation_response list" where
  "responses [] = Inr []"
| "responses (operation # rest) =
     (case OperationResponse operation of
        Inl e \<Rightarrow> Inl e
      | Inr r \<Rightarrow> (case responses rest of Inl e \<Rightarrow> Inl e | Inr rs \<Rightarrow> Inr (r # rs)))"

text \<open>\<open>sorted(..., key=created_at, reverse=True)\<close> is stable on equal keys.\<close>

definition list_operations :: "store \<Rightarrow> exn + operation_response list" where
  "list_operations ops =
     (case responses (map snd ops) of
        Inl e \<Rightarrow> Inl e
      | Inr rs \<Rightarrow> Inr (rev (sort_key r_created_at (rev rs))))"

text \<open>\<open>get_status\<close>: the number of operations that are pending or running.\<close>

definition get_status :: "store \<Rightarrow> nat" where
  "get_status ops =
     length (filter (\<lambda>operation. map_of operation ''status''
                                  \<in> set [Some (PStr ''pending''), Some (PStr ''running'')])
               (map snd ops))"

text \<open>
  One round of the loop of the event stream at the time \<open>current_time\<close>: every operation
  whose \<open>last_sent_at\<close> (\<open>datetime.min\<close> when absent) is before its \<open>updated_at\<close>
  (its \<open>created_at\<close> when absent) is reported, by its id and status, and gets
  \<open>last_sent_at\<close> set.
\<close>

definition get_time :: "pydict \<Rightarrow> string \<Rightarrow> nat \<Rightarrow> nat" where
  "get_time d k dflt = (case map_of d k of Some (PDatetime t) \<Rightarrow> t | _ \<Rightarrow> dflt)"

fun events_round :: "nat \<Rightarrow> store \<Rightarrow> (string \<times> pyval) list \<times> store" where
  "events_round current_time [] = ([], [])"
| "events_round current_time ((operation_id, operation) # rest) =
     (case events_round current_time rest of
        (evs, rest') \<Rightarrow>
          if get_time operation ''last_sent_at'' 0
               < get_time operation ''updated_at'' (get_time operation ''created_at'' 0)
          then ((operation_id, case map_of operation ''status'' of Some s \<Rightarrow> s | None \<Rightarrow> PNone) # evs,
                (operation_id, AList.update ''last_sent_at'' (PDatetime current_time) operation)
                  # rest')
          else (evs, (operation_id, operation) # rest'))"

text \<open>The stream runs until the client goes away: one round for each of the given times.\<close>

fun stream_events :: "nat list \<Rightarrow> store \<Rightarrow> (string \<times> pyval) list \<times> store" where
  "stream_events [] ops = ([], ops)"
| "stream_events (t # ts) ops =
     (case events_round t ops of
        (evs, ops1) \<Rightarrow> (case stream_events ts ops1 of (evs', ops2) \<Rightarrow> (evs @ evs', ops2)))"

subsection \<open>A request, from the check of the API key to the background task\<close>

datatype request =
    GetRoot
  | GetStatus
  | PostClone string string string
  | PostPush string string string
  | PostAddFile string string string string "string option"
  | GetOperation string string
  | ListOperations string
  | StreamEvents string "nat list"

datatype response =
    Html
  | Status nat
  | Operation operation_response
  | Operations "operation_response list"
  | Events "(string \<times> pyval) list"
  | Failure exn

definition verify_api_key :: "string \<Rightarrow> string \<Rightarrow> exn option" where
  "verify_api_key api_key credentials =
     (if credentials \<noteq> api_key then Some (Exc (HTTPException 401) ''Invalid API key'')
      else None)"

fun run_task :: "task \<Rightarrow> nat \<Rightarrow> store \<times> world \<Rightarrow> store \<times> world" where
  "run_task (CloneTask operation_id repo_url local_path) now (ops, w) =
     snd (execute_clone_operation ops w operation_id repo_url local_path now)"
| "run_task (PushTask operation_id repo_path commit_message) now (ops, w) =
     snd (execute_push_operation ops w operation_id repo_path commit_message now)"
| "run_task (AddFileTask operation_id repo_path section filename content) now (ops, w) =
     snd (execute_add_file_operation ops w operation_id repo_path section filename content now)"

text \<open>The framework runs the background tasks of an endpoint after its response, and
  only when the endpoint returned one.\<close>

definition finish ::
  "(exn + operation_response) \<times> store \<times> task list \<Rightarrow> nat \<Rightarrow> world \<Rightarrow> response \<times> store \<times> world" where
  "finish r now w =
     (case r of
        (Inl e, ops1, tasks) \<Rightarrow> (Failure e, ops1, w)
      | (Inr resp, ops1, tasks) \<Rightarrow>
          (case fold (\<lambda>t. run_task t now) tasks (ops1, w) of
             (ops2, w2) \<Rightarrow> (Operation resp, ops2, w2)))"

definition guarded ::
  "string \<Rightarrow> string \<Rightarrow> store \<Rightarrow> world \<Rightarrow> response \<times> store \<times> world \<Rightarrow> response \<times> store \<times> world" where
  "guarded api_key credentials ops w r =
     (case verify_api_key api_key credentials of
        Some e \<Rightarrow> (Failure e, ops, w)
      | None \<Rightarrow> r)"

fun serve ::
  "string \<Rightarrow> string \<Rightarrow> nat \<Rightarrow> request \<Rightarrow> store \<times> world \<Rightarrow> response \<times> store \<times> world" where
  "serve api_key uuid4 now GetRoot (ops, w) = (Html, ops, w)"
| "serve api_key uuid4 now GetStatus (ops, w) = (Status (get_status ops), ops, w)"
| "serve api_key uuid4 now (PostClone cred repo_url local_path) (ops, w) =
     guarded api_key cred ops w
       (finish (api_clone_repository ops repo_url local_path uuid4 now) now w)"
| "serve api_key uuid4 now (PostPush cred repo_path commit_message) (ops, w) =
     guarded api_key cred ops w
       (finish (api_push_changes ops repo_path commit_message uuid4 now) now w)"
| "serve api_key uuid4 now (PostAddFile cred repo_path section filename content) (ops, w) =
     guarded api_key cred ops w
       (finish (api_add_file ops repo_path section filename content uuid4 now) now w)"
| "serve api_key uuid4 now (GetOperation cred operation_id) (ops, w) =
     guarded api_key cred ops w
       (case get_operation ops operation_id of
          Inl e \<Rightarrow> (Failure e, ops, w)
        | Inr r \<Rightarrow> (Operation r, ops, w))"
| "serve api_key uuid4 now (ListOperations cred) (ops, w) =
     guarded api_key cred ops w
       (case list_operations ops of
          Inl e \<Rightarrow> (Failure e, ops, w)
        | Inr rs \<Rightarrow> (Operations rs, ops, w))"
| "serve api_key uuid4 now (StreamEvents cred ticks) (ops, w) =
     guarded api_key cred ops w
       (case stream_events ticks ops of (evs, ops1) \<Rightarrow> (Events evs, ops1, w))"

section \<open>The specification's words, and the worlds of the examples\<close>

text \<open>
  A valid file name as the specification describes it: none of the characters
  \<open>< > : " / \ | ? *\<close>, the segment before the first dot is not a reserved device name
  whatever the case of its letters, at most 255 characters, and not empty or made of
  white space only.
\<close>

definition spec_valid_filename :: "string \<Rightarrow> bool" where
  "spec_valid_filename c =
     (list_all (\<lambda>x. x \<notin> set invalid_chars) c
      \<and> list_all (\<lambda>r. lower (takeWhile (\<lambda>x. x \<noteq> CHR ''.'') c) \<noteq> lower r) reserved_names
      \<and> length c \<le> 255
      \<and> c \<noteq> [] \<and> \<not> list_all is_space c)"

text \<open>A small world for the examples: the directories \<open>/home\<close>, \<open>/home/repo\<close> and
  \<open>/tmp\<close>, the working directory \<open>/home\<close>, nothing on standard input, no working
  tree, no library call that raises, no token. And a store with one operation.\<close>

definition example_world :: world where
  "example_world =
     \<lparr>files = [([''home''], Dir), ([''home'', ''repo''], Dir), ([''tmp''], Dir)],
      cwd = [''home''], stdin = [], repos = [], raises = (\<lambda>c. None),
      github_token = [], default_branch = ''main'', logs = []\<rparr>"

definition example_store :: store where
  "example_store = snd (create_operation [] ''add-file'' [] ''id1'' 5)"

text \<open>A field of an operation of the store.\<close>

definition field_of :: "store \<Rightarrow> string \<Rightarrow> string \<Rightarrow> pyval option" where
  "field_of ops operation_id k =
     (case map_of ops operation_id of None \<Rightarrow> None | Some operation \<Rightarrow> map_of operation k)"

text \<open>The example world where \<open>Repo.clone_from\<close> raises, and the one with a working
  tree at \<open>/home/repo\<close> that has changes and where the push raises.\<close>

definition failing_clone_world :: world where
  "failing_clone_world =
     example_world\<lparr>raises := (\<lambda>c. if c = CloneFrom
                                   then Some (Exc GitCommandError ''remote: Repository not found.'')
                                   else None)\<rparr>"

definition example_repo :: repo where
  "example_repo = \<lparr>dirty = True, untracked_files = [''new.txt''], staged = False,
                   commits = [], origin_url = Some ''https://github.com/user/repo.git'',
                   pushed = []\<rparr>"

definition failing_push_world :: world where
  "failing_push_world =
     example_world\<lparr>repos := [([''home'', ''repo''], example_repo)],
                    raises := (\<lambda>c. if c = RemotePush
                                   then Some (Exc GitCommandError ''Authentication failed'')
                                   else None)\<rparr>"

text \<open>The example worlds with a configured token and a working tree at \<open>/home/repo\<close>
  whose origin is on GitHub: one with a clean tree, one with changes.\<close>

definition clean_repo :: repo where
  "clean_repo = \<lparr>dirty = False, untracked_files = [], staged = False,
                 commits = [''initial''], origin_url = Some ''https://github.com/user/repo.git'',
                 pushed = []\<rparr>"

definition clean_repo_world :: world where
  "clean_repo_world =
     example_world\<lparr>repos := [([''home'', ''repo''], clean_repo)], github_token := ''ghp_token''\<rparr>"

definition token_push_world :: world where
  "token_push_world =
     example_world\<lparr>repos := [([''home'', ''repo''], example_repo)], github_token := ''ghp_token''\<rparr>"

text \<open>
  The library raises only exceptions that derive from \<open>Exception\<close>, as every exception
  class of GitPython does. And a result of a step is good when the step has left the
  raising calls as they were and has raised, if anything, such an exception.
\<close>

definition all_git_calls :: "git_call list" where
  "all_git_calls = [RepoOpen, IsDirty, UntrackedFiles, GitAdd, IndexCommit, RemoteOrigin,
                    SetUrl, RemoteUrl, RemotePush, CloneFrom, ConfigInit]"

definition library_raises_exceptions :: "world \<Rightarrow> bool" where
  "library_raises_exceptions w =
     list_all (\<lambda>c. case raises w c of None \<Rightarrow> True | Some e \<Rightarrow> is_Exception (exn_cls e))
       all_git_calls"

definition good :: "world \<Rightarrow> (exn + 'a) \<times> world \<Rightarrow> bool" where
  "good w r = (raises (snd r) = raises w
               \<and> (case fst r of Inl e \<Rightarrow> is_Exception (exn_cls e) | Inr a \<Rightarrow> True))"

section \<open>Properties of the string helpers\<close>

lemma lower_upper_char: "lower_char (upper_char c) = lower_char c"
  by (simp add: lower_char_def upper_char_def ascii_lowercase_def ascii_uppercase_def)

lemma upper_lower_char: "upper_char (lower_char c) = upper_char c"
  by (simp add: lower_char_def upper_char_def ascii_lowercase_def ascii_uppercase_def)

lemma lower_upper: "lower (upper s) = lower s"
  by (simp add: lower_def upper_def lower_upper_char)

lemma upper_lower: "upper (lower s) = upper s"
  by (simp add: lower_def upper_def upper_lower_char)

lemma upper_reserved: "r \<in> set reserved_names \<Longrightarrow> upper r = r"
  by (auto simp: reserved_names_def upper_def upper_char_def ascii_lowercase_def
      ascii_uppercase_def)

lemma split_not_Nil: "split sep s \<noteq> []"
  by (induction s) (auto split: list.splits)

lemma hd_split: "hd (split sep s) = takeWhile (\<lambda>x. x \<noteq> sep) s"
  by (induction s) (auto simp: split_not_Nil split: list.splits)

lemma strip_Nil_iff: "strip s = [] \<longleftrightarrow> list_all is_space s"
proof
  assume "strip s = []"
  then have a: "\<forall>x \<in> set (dropWhile is_space s). is_space x"
    by (simp add: strip_def)
  have "dropWhile is_space s = []"
  proof (rule ccontr)
    assume n: "dropWhile is_space s \<noteq> []"
    then have "\<not> is_space (hd (dropWhile is_space s))" by (rule hd_dropWhile)
    moreover have "hd (dropWhile is_space s) \<in> set (dropWhile is_space s)" using n by simp
    ultimately show False using a by blast
  qed
  then show "list_all is_space s" by (simp add: list_all_iff)
next
  assume "list_all is_space s"
  then have "\<forall>x \<in> set s. is_space x" by (simp add: list_all_iff)
  then show "strip s = []" by (auto simp: strip_def dest: set_dropWhileD)
qed

section \<open>Validation of file names and paths\<close>

text \<open>The test on the upper-case form of a segment is a comparison that ignores case.\<close>

lemma reserved_iff:
  "upper s \<in> set reserved_names \<longleftrightarrow> (\<exists>r \<in> set reserved_names. lower s = lower r)"
proof
  assume "upper s \<in> set reserved_names"
  moreover have "lower s = lower (upper s)" by (simp add: lower_upper)
  ultimately show "\<exists>r \<in> set reserved_names. lower s = lower r" by blast
next
  assume "\<exists>r \<in> set reserved_names. lower s = lower r"
  then obtain r where r: "r \<in> set reserved_names" and e: "lower s = lower r" by blast
  have "upper s = upper (lower s)" by (simp add: upper_lower)
  also have "\<dots> = upper r" by (simp add: e upper_lower)
  also have "\<dots> = r" using r by (rule upper_reserved)
  finally show "upper s \<in> set reserved_names" using r by simp
qed

lemma is_valid_filename_spec: "is_valid_filename c = spec_valid_filename c"
proof -
  have a: "re_search_class invalid_chars c \<longleftrightarrow> \<not> list_all (\<lambda>x. x \<notin> set invalid_chars) c"
    by (simp add: re_search_class_def list_ex_iff list_all_iff)
  have b: "upper (hd (split CHR ''.'' c)) \<in> set reserved_names
           \<longleftrightarrow> \<not> list_all (\<lambda>r. lower (takeWhile (\<lambda>x. x \<noteq> CHR ''.'') c) \<noteq> lower r)
                   reserved_names"
    by (simp add: hd_split reserved_iff list_all_iff)
  have d: "list_all is_space []" by simp
  show ?thesis
    unfolding is_valid_filename_def spec_valid_filename_def a b strip_Nil_iff
    using d by auto
qed

text \<open>
  C8. \<open>is_valid_path\<close> returns \<open>True\<close> for a path exactly when no component of the path
  (the parts of the \<open>Path\<close> object made from it, the root among them) is \<open>..\<close> and every
  component is a valid file name as the specification describes one: none of the
  characters \<open>< > : " / \ | ? *\<close>, no reserved device name before the first dot
  (whatever the case), at most 255 characters, not empty and not white space only.
\<close>

theorem is_valid_path_spec:
  "is_valid_path p =
     (''..'' \<notin> set (parts (Path p)) \<and> list_all spec_valid_filename (parts (Path p)))"
  by (simp add: is_valid_path_def Let_def is_valid_filename_spec [abs_def])

theorem is_valid_path_spec_witness:
  "is_valid_path ''src/components'' \<and> \<not> is_valid_path ''src/../etc''
   \<and> \<not> is_valid_path ''docs/con.txt'' \<and> \<not> is_valid_path ''/etc''"
proof -
  have "''..'' \<notin> set (parts (Path ''src/components''))
        \<and> list_all spec_valid_filename (parts (Path ''src/components''))"
    by code_simp
  moreover have "''..'' \<in> set (parts (Path ''src/../etc''))"
    by code_simp
  moreover have "\<not> list_all spec_valid_filename (parts (Path ''docs/con.txt''))"
    by code_simp
  moreover have "\<not> list_all spec_valid_filename (parts (Path ''/etc''))"
    by code_simp
  ultimately show ?thesis
    by (simp only: is_valid_path_spec simp_thms)
qed

section \<open>The operation store\<close>

lemma keys_create_operation:
  "fst ` set (snd (create_operation ops ty params uuid4 now)) = insert uuid4 (fst ` set ops)"
  by (simp add: create_operation_def Let_def AList.dom_update)

lemma keys_update_operation:
  "fst ` set (update_operation ops i st msg res err now) = fst ` set ops"
proof (cases "map_of ops i")
  case None
  then show ?thesis by (simp add: update_operation_def)
next
  case (Some operation)
  then have "(i, operation) \<in> set ops" by (rule map_of_SomeD)
  then have "i \<in> fst ` set ops" by force
  then show ?thesis using Some
    by (auto simp: update_operation_def Let_def AList.dom_update)
qed

lemma update_operation_absent:
  "i \<notin> fst ` set ops \<Longrightarrow> update_operation ops i st msg res err now = ops"
proof -
  assume "i \<notin> fst ` set ops"
  then have "map_of ops i = None" by (simp add: map_of_eq_None_iff)
  then show ?thesis by (simp add: update_operation_def)
qed

lemma update_operation_other:
  "k \<noteq> i \<Longrightarrow> map_of (update_operation ops i st msg res err now) k = map_of ops k"
  by (simp add: update_operation_def Let_def AList.update_conv' split: option.splits)

lemma update_operation_fields:
  assumes "map_of ops i = Some operation"
    and "f \<notin> set [''status'', ''message'', ''result'', ''error'', ''completed_at'']"
  shows "\<exists>op'. map_of (update_operation ops i st msg res err now) i = Some op'
               \<and> map_of op' f = map_of operation f"
  using assms
  by (simp add: update_operation_def Let_def AList.update_conv' dict_update_def)

lemma keys_execute_clone:
  "fst ` set (fst (snd (execute_clone_operation ops w i u p now))) = fst ` set ops"
  by (simp add: execute_clone_operation_def Let_def keys_update_operation split: prod.splits sum.splits)

lemma keys_execute_push:
  "fst ` set (fst (snd (execute_push_operation ops w i u p now))) = fst ` set ops"
  by (simp add: execute_push_operation_def Let_def keys_update_operation split: prod.splits sum.splits)

lemma keys_execute_add_file:
  "fst ` set (fst (snd (execute_add_file_operation ops w i r s f c now))) = fst ` set ops"
  by (simp add: execute_add_file_operation_def Let_def keys_update_operation split: prod.splits sum.splits)

lemma keys_run_task: "fst ` set (fst (run_task t now (ops, w))) = fst ` set ops"
  by (cases t) (simp_all add: keys_execute_clone keys_execute_push keys_execute_add_file)

lemma keys_run_tasks:
  "fst ` set (fst (fold (\<lambda>t. run_task t now) ts s)) = fst ` set (fst s)"
proof (induction ts arbitrary: s)
  case Nil
  then show ?case by simp
next
  case (Cons t ts)
  obtain ops w where s: "s = (ops, w)" by (cases s)
  show ?case using Cons [of "run_task t now (ops, w)"] by (simp add: s keys_run_task)
qed

lemma keys_events_round: "map fst (snd (events_round t ops)) = map fst ops"
  by (induction ops) (auto split: prod.splits)

lemma keys_stream_events: "map fst (snd (stream_events ts ops)) = map fst ops"
proof (induction ts arbitrary: ops)
  case Nil
  then show ?case by simp
next
  case (Cons t ts)
  obtain evs ops1 where a: "events_round t ops = (evs, ops1)" by (cases "events_round t ops")
  obtain evs' ops2 where b: "stream_events ts ops1 = (evs', ops2)"
    by (cases "stream_events ts ops1")
  have "map fst ops1 = map fst ops" using keys_events_round [of t ops] a by simp
  moreover have "map fst ops2 = map fst ops1" using Cons [of ops1] b by simp
  ultimately show ?case by (simp add: a b)
qed

lemma keys_finish:
  assumes "fst ` set ops \<subseteq> fst ` set (fst (snd r))"
  shows "fst ` set ops \<subseteq> fst ` set (fst (snd (finish r now w)))"
proof (cases r)
  case (fields a ops1 tasks)
  show ?thesis
  proof (cases a)
    case (Inl e)
    then show ?thesis using assms fields by (simp add: finish_def)
  next
    case (Inr resp)
    then show ?thesis using assms fields keys_run_tasks [of now tasks "(ops1, w)"]
      by (simp add: finish_def split: prod.splits)
  qed
qed

lemma keys_guarded:
  assumes "fst ` set ops \<subseteq> fst ` set (fst (snd r))"
  shows "fst ` set ops \<subseteq> fst ` set (fst (snd (guarded k c ops w r)))"
  using assms by (simp add: guarded_def split: option.splits)

lemma keys_serve:
  "fst ` set ops \<subseteq> fst ` set (fst (snd (serve api_key uuid4 now req (ops, w))))"
proof (cases req)
  case (PostClone c u p)
  have "fst ` set ops \<subseteq> fst ` set (fst (snd (api_clone_repository ops u p uuid4 now)))"
    by (simp add: api_clone_repository_def keys_create_operation [symmetric] split: prod.splits)
      (metis keys_create_operation snd_conv subset_insertI)
  then show ?thesis using PostClone by (simp add: keys_guarded keys_finish)
next
  case (PostPush c u p)
  have "fst ` set ops \<subseteq> fst ` set (fst (snd (api_push_changes ops u p uuid4 now)))"
    by (simp add: api_push_changes_def keys_create_operation [symmetric] split: prod.splits)
      (metis keys_create_operation snd_conv subset_insertI)
  then show ?thesis using PostPush by (simp add: keys_guarded keys_finish)
next
  case (PostAddFile c r s f ct)
  have "fst ` set ops \<subseteq> fst ` set (fst (snd (api_add_file ops r s f ct uuid4 now)))"
    by (simp add: api_add_file_def keys_create_operation [symmetric] split: prod.splits)
      (metis keys_create_operation snd_conv subset_insertI)
  then show ?thesis using PostAddFile by (simp add: keys_guarded keys_finish)
next
  case (StreamEvents c ts)
  have "fst ` set (snd (stream_events ts ops)) = fst ` set ops"
    using keys_stream_events [of ts ops] by (metis set_map)
  then have "fst ` set ops \<subseteq> fst ` set (snd (stream_events ts ops))" by simp
  then show ?thesis using StreamEvents
    by (cases "stream_events ts ops") (simp add: guarded_def split: option.splits)
qed (auto simp: guarded_def split: option.splits sum.splits)

lemma length_create_operation:
  "uuid4 \<notin> fst ` set ops \<Longrightarrow>
   length (snd (create_operation ops ty params uuid4 now)) = Suc (length ops)"
proof -
  assume "uuid4 \<notin> fst ` set ops"
  then have "uuid4 \<notin> set (map fst ops)" by simp
  then have "map fst (snd (create_operation ops ty params uuid4 now)) = map fst ops @ [uuid4]"
    by (simp add: create_operation_def Let_def AList.update_keys)
  then have "length (map fst (snd (create_operation ops ty params uuid4 now)))
             = Suc (length ops)" by simp
  then show ?thesis by simp
qed

text \<open>
  C4. The operation store is a map keyed by the generated identifier, and nothing removes
  an entry. With a fresh identifier, \<open>create_operation\<close> returns it and adds exactly one
  entry, under that identifier, with status \<open>pending\<close>, and leaves every other entry as
  it was. \<open>update_operation\<close> keeps the set of keys, does nothing for an unknown
  identifier, leaves the other entries alone and, in the entry it updates, changes no
  field but \<open>status\<close>, \<open>message\<close>, \<open>result\<close>, \<open>error\<close> and \<open>completed_at\<close>. And
  every key of the store before a request to the server (whatever the request, with the
  background task it starts) is a key of the store after it.
\<close>

theorem operation_store_never_shrinks:
  "(uuid4 \<notin> fst ` set ops \<longrightarrow>
      fst (create_operation ops ty params uuid4 now) = uuid4
      \<and> length (snd (create_operation ops ty params uuid4 now)) = Suc (length ops)
      \<and> fst ` set (snd (create_operation ops ty params uuid4 now)) = insert uuid4 (fst ` set ops)
      \<and> (\<exists>operation. map_of (snd (create_operation ops ty params uuid4 now)) uuid4 = Some operation
             \<and> map_of operation ''id'' = Some (PStr uuid4)
             \<and> map_of operation ''status'' = Some (PStr ''pending''))
      \<and> (\<forall>k. k \<noteq> uuid4 \<longrightarrow>
             map_of (snd (create_operation ops ty params uuid4 now)) k = map_of ops k))
   \<and> fst ` set (update_operation ops i st msg res err t) = fst ` set ops
   \<and> (i \<notin> fst ` set ops \<longrightarrow> update_operation ops i st msg res err t = ops)
   \<and> (\<forall>k. k \<noteq> i \<longrightarrow> map_of (update_operation ops i st msg res err t) k = map_of ops k)
   \<and> (\<forall>operation f. map_of ops i = Some operation
          \<and> f \<notin> set [''status'', ''message'', ''result'', ''error'', ''completed_at'']
        \<longrightarrow> (\<exists>op'. map_of (update_operation ops i st msg res err t) i = Some op'
                   \<and> map_of op' f = map_of operation f))
   \<and> fst ` set ops \<subseteq> fst ` set (fst (snd (serve api_key uuid4 now req (ops, w))))"
proof -
  have a: "fst (create_operation ops ty params uuid4 now) = uuid4"
    by (simp add: create_operation_def Let_def)
  have b: "\<exists>operation. map_of (snd (create_operation ops ty params uuid4 now)) uuid4 = Some operation
             \<and> map_of operation ''id'' = Some (PStr uuid4)
             \<and> map_of operation ''status'' = Some (PStr ''pending'')"
    by (simp add: create_operation_def Let_def AList.update_conv')
  have c: "\<forall>k. k \<noteq> uuid4 \<longrightarrow>
             map_of (snd (create_operation ops ty params uuid4 now)) k = map_of ops k"
    by (simp add: create_operation_def Let_def AList.update_conv')
  have d: "\<forall>operation f. map_of ops i = Some operation
          \<and> f \<notin> set [''status'', ''message'', ''result'', ''error'', ''completed_at'']
        \<longrightarrow> (\<exists>op'. map_of (update_operation ops i st msg res err t) i = Some op'
                   \<and> map_of op' f = map_of operation f)"
    using update_operation_fields by blast
  have e: "uuid4 \<notin> fst ` set ops \<longrightarrow>
      length (snd (create_operation ops ty params uuid4 now)) = Suc (length ops)"
    by (simp add: length_create_operation)
  have f: "i \<notin> fst ` set ops \<longrightarrow> update_operation ops i st msg res err t = ops"
    by (simp add: update_operation_absent)
  have g: "\<forall>k. k \<noteq> i \<longrightarrow> map_of (update_operation ops i st msg res err t) k = map_of ops k"
    by (simp add: update_operation_other)
  show ?thesis
    by (intro conjI impI a b c d f g keys_create_operation keys_update_operation keys_serve
        e [rule_format])
qed

theorem operation_store_never_shrinks_witness:
  "''id2'' \<notin> fst ` set example_store
   \<and> length (snd (create_operation example_store ''clone'' [] ''id2'' 9)) = Suc (length example_store)
   \<and> ''id1'' \<in> fst ` set (update_operation example_store ''id1'' ''running'' ''Cloning repository...'' PNone PNone 9)
   \<and> ''id1'' \<in> fst ` set (fst (snd (serve ''key'' ''id2'' 9
                   (PostClone ''key'' ''https://github.com/user/repo'' ''repo2'')
                   (example_store, example_world))))"
proof -
  have h: "''id2'' \<notin> fst ` set example_store" by code_simp
  have m: "''id1'' \<in> fst ` set example_store" by code_simp
  note T = operation_store_never_shrinks [where ops = example_store and ?uuid4.0 = "''id2''"
        and i = "''id1''" and ty = "''clone''" and params = "[]" and now = 9
        and st = "''running''" and msg = "''Cloning repository...''" and res = PNone
        and err = PNone and t = 9 and api_key = "''key''"
        and req = "PostClone ''key'' ''https://github.com/user/repo'' ''repo2''"
        and w = example_world]
  have a: "length (snd (create_operation example_store ''clone'' [] ''id2'' 9))
           = Suc (length example_store)"
    using T [THEN conjunct1] h by blast
  have b: "''id1'' \<in> fst ` set (update_operation example_store ''id1'' ''running''
             ''Cloning repository...'' PNone PNone 9)"
    using T [THEN conjunct2, THEN conjunct1] m by blast
  have c: "''id1'' \<in> fst ` set (fst (snd (serve ''key'' ''id2'' 9
                   (PostClone ''key'' ''https://github.com/user/repo'' ''repo2'')
                   (example_store, example_world))))"
    using T [THEN conjunct2, THEN conjunct2, THEN conjunct2, THEN conjunct2, THEN conjunct2] m
    by blast
  show ?thesis using h a b c by blast
qed

section \<open>The responses of the API\<close>

text \<open>An operation as \<open>create_operation\<close> stores it has the key \<open>id\<close> and no key
  \<open>operation_id\<close>, the required field of the response model.\<close>

lemma respond_created:
  "respond (snd (create_operation ops ty params uuid4 now)) uuid4
   = Inl (Exc ValidationError ''validation error for OperationResponse'')"
  by (simp add: respond_def create_operation_def Let_def AList.update_conv' OperationResponse_def)

text \<open>
  C5. The claim is that each POST endpoint returns at once an \<open>OperationResponse\<close> with
  status \<open>pending\<close> whose operation can then be fetched. The code registers the
  operation, but building the response raises \<open>ValidationError\<close>, for every request:
  in the three POST endpoints and in the GET of an identifier that exists. The request
  fails and its background task is never started.
\<close>

theorem post_endpoints_raise:
  "fst (api_clone_repository ops repo_url local_path uuid4 now)
     = Inl (Exc ValidationError ''validation error for OperationResponse'')
   \<and> fst (api_push_changes ops repo_path commit_message uuid4 now)
     = Inl (Exc ValidationError ''validation error for OperationResponse'')
   \<and> fst (api_add_file ops repo_path section filename content uuid4 now)
     = Inl (Exc ValidationError ''validation error for OperationResponse'')
   \<and> get_operation (fst (snd (api_clone_repository ops repo_url local_path uuid4 now))) uuid4
     = Inl (Exc ValidationError ''validation error for OperationResponse'')
   \<and> serve api_key uuid4 now (PostClone api_key repo_url local_path) (ops, w)
     = (Failure (Exc ValidationError ''validation error for OperationResponse''),
        snd (create_operation ops ''clone''
               [(''repo_url'', PStr repo_url), (''local_path'', PStr local_path)] uuid4 now), w)"
proof -
  have p: "\<And>ty params. create_operation ops ty params uuid4 now
             = (uuid4, snd (create_operation ops ty params uuid4 now))"
    by (simp add: create_operation_def Let_def)
  have k: "\<And>ty params. uuid4 \<in> fst ` set (snd (create_operation ops ty params uuid4 now))"
    by (simp add: keys_create_operation)
  have c: "api_clone_repository ops repo_url local_path uuid4 now
           = (Inl (Exc ValidationError ''validation error for OperationResponse''),
              snd (create_operation ops ''clone''
                [(''repo_url'', PStr repo_url), (''local_path'', PStr local_path)] uuid4 now),
              [CloneTask uuid4 repo_url local_path])"
    unfolding api_clone_repository_def by (subst p) (simp add: respond_created)
  have "fst (api_push_changes ops repo_path commit_message uuid4 now)
     = Inl (Exc ValidationError ''validation error for OperationResponse'')"
    unfolding api_push_changes_def by (subst p) (simp add: respond_created)
  moreover have "fst (api_add_file ops repo_path section filename content uuid4 now)
     = Inl (Exc ValidationError ''validation error for OperationResponse'')"
    unfolding api_add_file_def by (subst p) (simp add: respond_created)
  moreover have "get_operation (fst (snd (api_clone_repository ops repo_url local_path uuid4 now)))
       uuid4 = Inl (Exc ValidationError ''validation error for OperationResponse'')"
    by (simp add: c get_operation_def k respond_created)
  moreover have "serve api_key uuid4 now (PostClone api_key repo_url local_path) (ops, w)
     = (Failure (Exc ValidationError ''validation error for OperationResponse''),
        snd (create_operation ops ''clone''
               [(''repo_url'', PStr repo_url), (''local_path'', PStr local_path)] uuid4 now), w)"
    by (simp add: c guarded_def verify_api_key_def finish_def)
  ultimately show ?thesis by (simp add: c)
qed

section \<open>Adding a file to a section\<close>

text \<open>
  C1. The claim is that \<open>add_file_to_section\<close> creates a file only under the repository,
  at the repository path joined with the section and the file name, and returns
  \<open>False\<close> whenever the section or the file name fails validation. The code validates
  the section, but of the file name it checks only the last component of the joined
  path: in the example world, with the repository \<open>/home/repo\<close> and the valid section
  \<open>src\<close>, the file name \<open>/tmp/evil.txt\<close> (not a valid file name) makes it return
  \<open>True\<close> and create \<open>/tmp/evil.txt\<close>, and the file name \<open>../../outside.txt\<close> makes
  it return \<open>True\<close> and create \<open>/home/outside.txt\<close>.
\<close>

theorem add_file_to_section_outside_repository:
  "is_valid_path ''src''
   \<and> \<not> is_valid_filename ''/tmp/evil.txt''
   \<and> fst (add_file_to_section example_world ''/home/repo'' ''src'' ''/tmp/evil.txt'' False False)
   \<and> files (snd (add_file_to_section example_world ''/home/repo'' ''src'' ''/tmp/evil.txt''
               False False))
       = files example_world @ [([''tmp'', ''evil.txt''], File)]
   \<and> \<not> is_valid_filename ''../../outside.txt''
   \<and> fst (add_file_to_section example_world ''/home/repo'' ''src'' ''../../outside.txt''
            False False)
   \<and> files (snd (add_file_to_section example_world ''/home/repo'' ''src'' ''../../outside.txt''
               False False))
       = files example_world
         @ [([''home'', ''repo'', ''src''], Dir), ([''home'', ''outside.txt''], File)]"
  by code_simp

text \<open>
  C2. The claim is that the background job does what the direct operation does and
  reports \<open>failed\<close> when it does not succeed. In the example world the direct operation
  creates \<open>/home/repo/src/a.txt\<close>; the job, given the content \<open>hello\<close>, passes it as
  \<open>dry_run\<close>, creates nothing and reports \<open>completed\<close>. With the absolute repository
  path \<open>/home/repo\<close> the direct operation succeeds and the job reports \<open>failed\<close>. With
  the invalid section \<open>/etc\<close> the direct operation returns \<open>False\<close> and the job reports
  \<open>completed\<close>.
\<close>

theorem add_file_job_differs:
  "fst (add_file_to_section example_world ''repo'' ''src'' ''a.txt'' False False)
   \<and> map_of (files (snd (add_file_to_section example_world ''repo'' ''src'' ''a.txt'' False False)))
        [''home'', ''repo'', ''src'', ''a.txt''] = Some File
   \<and> files (snd (snd (execute_add_file_operation example_store example_world ''id1''
                        ''repo'' ''src'' ''a.txt'' (Some ''hello'') 7)))
       = files example_world
   \<and> field_of (fst (snd (execute_add_file_operation example_store example_world ''id1''
                           ''repo'' ''src'' ''a.txt'' (Some ''hello'') 7))) ''id1'' ''status''
       = Some (PStr ''completed'')
   \<and> fst (add_file_to_section example_world ''/home/repo'' ''src'' ''a.txt'' False False)
   \<and> field_of (fst (snd (execute_add_file_operation example_store example_world ''id1''
                           ''/home/repo'' ''src'' ''a.txt'' None 7))) ''id1'' ''status''
       = Some (PStr ''failed'')
   \<and> fst (add_file_to_section example_world ''/home/repo'' ''/etc'' ''a.txt'' False False) = False
   \<and> field_of (fst (snd (execute_add_file_operation example_store example_world ''id1''
                           ''repo'' ''/etc'' ''a.txt'' None 7))) ''id1'' ''status''
       = Some (PStr ''completed'')"
  by code_simp

section \<open>The background jobs for clone and push\<close>

text \<open>
  C3. The claim is that the final status is \<open>completed\<close> exactly when the Git operation
  succeeds and \<open>failed\<close>, with an error message, exactly when it does not. The jobs
  ignore the value the operation returns: where the clone raises inside
  \<open>clone_repository\<close>, which returns \<open>False\<close> and clones nothing, the job reports
  \<open>completed\<close> with no error; likewise where the push raises inside \<open>push_changes\<close>.
\<close>

theorem failed_git_operation_reported_completed:
  "fst (clone_repository failing_clone_world ''https://github.com/user/repo'' ''repo2'' False)
     = Inr False
   \<and> repos (snd (snd (execute_clone_operation example_store failing_clone_world ''id1''
                        ''https://github.com/user/repo'' ''repo2'' 7))) = []
   \<and> field_of (fst (snd (execute_clone_operation example_store failing_clone_world ''id1''
                           ''https://github.com/user/repo'' ''repo2'' 7))) ''id1'' ''status''
       = Some (PStr ''completed'')
   \<and> field_of (fst (snd (execute_clone_operation example_store failing_clone_world ''id1''
                           ''https://github.com/user/repo'' ''repo2'' 7))) ''id1'' ''error''
       = Some PNone
   \<and> fst (push_changes failing_push_world ''repo'' ''update'' False) = Inr False
   \<and> field_of (fst (snd (execute_push_operation example_store failing_push_world ''id1''
                           ''repo'' ''update'' 7))) ''id1'' ''status''
       = Some (PStr ''completed'')
   \<and> field_of (fst (snd (execute_push_operation example_store failing_push_world ''id1''
                           ''repo'' ''update'' 7))) ''id1'' ''error''
       = Some PNone"
  by code_simp

section \<open>Pushing changes\<close>

lemma lib_ok:
  "raises w c = None \<Longrightarrow> map_of (repos w) q = Some r \<Longrightarrow>
   lib w c q f = (case f r of
                    Inl e \<Rightarrow> (Inl e, w)
                  | Inr (a, r') \<Rightarrow> (Inr a, w\<lparr>repos := AList.update q r' (repos w)\<rparr>))"
  by (simp add: lib_def)

lemma repos_unchanged: "map_of (repos w) q = Some r \<Longrightarrow> w\<lparr>repos := AList.update q r (repos w)\<rparr> = w"
  by (simp add: AList.update_triv)

lemma is_git_repository_Repo: "Repo w p = Inr q \<Longrightarrow> is_git_repository w p = Inr True"
  by (simp add: is_git_repository_def)

lemma no_changes_clean:
  assumes "map_of (repos w) q = Some r" "\<not> dirty r" "untracked_files r = []"
    "raises w IsDirty = None" "raises w UntrackedFiles = None"
  shows "no_changes w q = (Inr True, w)"
  using assms
  by (simp add: no_changes_def repo_is_dirty_def repo_untracked_files_def lib_ok repos_unchanged)

text \<open>
  C9. For a valid Git repository (\<open>Repo\<close> opens it) whose working tree is clean
  (\<open>is_dirty()\<close> answers no and there is no untracked file), \<open>push_changes\<close> returns
  \<open>True\<close> and the world after the call is the world before it with one more log
  message: no working tree has changed (nothing staged, no commit, no push, the same
  remote URL) and no file has.
\<close>

theorem push_changes_clean:
  assumes "Repo w local_path = Inr q" and "map_of (repos w) q = Some r"
    and "\<not> dirty r" and "untracked_files r = []"
    and "raises w IsDirty = None" and "raises w UntrackedFiles = None"
  shows "push_changes w local_path commit_message dry_run
           = (Inr True, log INFO ''No changes to commit'' w)
         \<and> repos (snd (push_changes w local_path commit_message dry_run)) = repos w
         \<and> files (snd (push_changes w local_path commit_message dry_run)) = files w"
proof -
  have "push_body w local_path commit_message dry_run
          = (Inr True, log INFO ''No changes to commit'' w)"
    using assms by (simp add: push_body_def is_git_repository_Repo no_changes_clean)
  then show ?thesis by (simp add: push_changes_def log_def)
qed

theorem push_changes_clean_witness:
  "fst (push_changes clean_repo_world ''repo'' ''update'' False) = Inr True
   \<and> repos (snd (push_changes clean_repo_world ''repo'' ''update'' False))
       = [([''home'', ''repo''], clean_repo)]"
proof -
  have 1: "Repo clean_repo_world ''repo'' = Inr [''home'', ''repo'']" by code_simp
  have 2: "map_of (repos clean_repo_world) [''home'', ''repo''] = Some clean_repo" by code_simp
  have 3: "\<not> dirty clean_repo" by code_simp
  have 4: "untracked_files clean_repo = []" by code_simp
  have 5: "raises clean_repo_world IsDirty = None" by code_simp
  have 6: "raises clean_repo_world UntrackedFiles = None" by code_simp
  have 7: "repos clean_repo_world = [([''home'', ''repo''], clean_repo)]" by code_simp
  show ?thesis
    using push_changes_clean [OF 1 2 3 4 5 6, of "''update''" False] by (simp add: 7 log_def)
qed

text \<open>
  C10 as stated fails: with a token configured and an origin URL that begins with
  \<open>https://github.com/\<close>, \<open>push_changes\<close> on a clean working tree returns \<open>True\<close>
  and leaves the URL of origin as it was.
\<close>

theorem push_changes_token_counterexample:
  "github_token clean_repo_world = ''ghp_token''
   \<and> map (\<lambda>(q, r). (q, origin_url r)) (repos clean_repo_world)
       = [([''home'', ''repo''], Some ''https://github.com/user/repo.git'')]
   \<and> fst (push_changes clean_repo_world ''repo'' ''update'' False) = Inr True
   \<and> map (\<lambda>(q, r). (q, origin_url r, pushed r))
        (repos (snd (push_changes clean_repo_world ''repo'' ''update'' False)))
       = [([''home'', ''repo''], Some ''https://github.com/user/repo.git'', [])]"
  by code_simp

lemma replace_prefix:
  assumes "old \<noteq> []" "prefix old s"
  shows "replace old new s = new @ replace old new (drop (length old) s)"
proof (cases s)
  case Nil
  then show ?thesis using assms by simp
next
  case (Cons c cs)
  then show ?thesis using assms by simp
qed

lemma no_changes_dirty:
  assumes "map_of (repos w) q = Some r" "dirty r \<or> untracked_files r \<noteq> []"
    "raises w IsDirty = None" "raises w UntrackedFiles = None"
  shows "no_changes w q = (Inr False, w)"
  using assms
  by (auto simp: no_changes_def repo_is_dirty_def repo_untracked_files_def lib_ok repos_unchanged)

lemma push_to_remote_token:
  assumes r: "map_of (repos w) q = Some r"
    and ok: "raises w RemoteOrigin = None" "raises w RemoteUrl = None" "raises w SetUrl = None"
    and tok: "github_token w \<noteq> []"
    and url: "origin_url r = Some u" "startswith u ''https://github.com/''"
  shows "\<exists>r'. map_of (repos (snd (push_to_remote w q))) q = Some r'
          \<and> origin_url r' = Some (replace ''https://github.com/''
                                     (''https://'' @ github_token w @ ''@github.com/'') u)
          \<and> (raises w RemotePush = None \<longrightarrow>
                fst (push_to_remote w q) = Inr True
                \<and> pushed r' = pushed r @ [(replace ''https://github.com/''
                                     (''https://'' @ github_token w @ ''@github.com/'') u,
                                            default_branch w)])
          \<and> (raises w RemotePush \<noteq> None \<longrightarrow> pushed r' = pushed r)"
proof (cases "raises w RemotePush")
  case None
  then show ?thesis using assms
    by (simp add: push_to_remote_def Let_def repo_remote_origin_def remote_url_def
        remote_set_url_def remote_push_def get_github_token_def get_default_branch_def
        lib_def log_def AList.update_conv')
next
  case (Some e)
  then show ?thesis using assms
    by (simp add: push_to_remote_def Let_def repo_remote_origin_def remote_url_def
        remote_set_url_def remote_push_def get_github_token_def get_default_branch_def
        lib_def log_def AList.update_conv')
qed


lemma stage_commit_push_reaches:
  assumes r: "map_of (repos w) q = Some r"
    and ok: "raises w GitAdd = None" "raises w IndexCommit = None"
  shows "\<exists>w' r2. stage_commit_push w q msg = push_to_remote w' q
           \<and> map_of (repos w') q = Some r2 \<and> origin_url r2 = origin_url r
           \<and> pushed r2 = pushed r \<and> raises w' = raises w
           \<and> github_token w' = github_token w \<and> default_branch w' = default_branch w"
  using assms
  apply (simp add: stage_commit_push_def Let_def git_add_all_def index_commit_def lib_def log_def
      AList.update_conv')
  apply (rule exI, rule conjI, rule refl)
  apply (simp add: AList.update_conv')
  done

lemma push_changes_snd:
  "repos (snd (push_changes w p m d)) = repos (snd (push_body w p m d))"
proof (cases "push_body w p m d")
  case (Pair a w1)
  then show ?thesis by (cases a) (simp_all add: push_changes_def log_def)
qed

lemma push_changes_fst:
  "fst (push_body w p m d) = Inr b \<Longrightarrow> fst (push_changes w p m d) = Inr b"
  by (cases "push_body w p m d") (simp add: push_changes_def)

text \<open>
  C10, as amended. When \<open>push_changes\<close> gets as far as the push (a valid repository with
  changes, no dry run, and the library calls before the push do not raise), a token is
  configured and the URL of origin begins with \<open>https://github.com/\<close>, then after the
  call the URL of origin is the old one with \<open>https://github.com/\<close> replaced by
  \<open>https://<token>@github.com/\<close>, so it begins with that; this holds whether the push
  raises or not, and a push that does not raise went to the new URL.
\<close>

theorem push_changes_embeds_token:
  assumes R: "Repo w local_path = Inr q" and r: "map_of (repos w) q = Some r"
    and ch: "dirty r \<or> untracked_files r \<noteq> []"
    and ok: "raises w IsDirty = None" "raises w UntrackedFiles = None"
      "raises w GitAdd = None" "raises w IndexCommit = None"
      "raises w RemoteOrigin = None" "raises w RemoteUrl = None" "raises w SetUrl = None"
    and tok: "github_token w \<noteq> []"
    and url: "origin_url r = Some u" "startswith u ''https://github.com/''"
  shows "\<exists>r'. map_of (repos (snd (push_changes w local_path commit_message False))) q = Some r'
          \<and> origin_url r' = Some (replace ''https://github.com/''
                                     (''https://'' @ github_token w @ ''@github.com/'') u)
          \<and> startswith (replace ''https://github.com/''
                           (''https://'' @ github_token w @ ''@github.com/'') u)
               (''https://'' @ github_token w @ ''@github.com/'')
          \<and> (raises w RemotePush = None \<longrightarrow>
                fst (push_changes w local_path commit_message False) = Inr True
                \<and> pushed r' = pushed r @ [(replace ''https://github.com/''
                                     (''https://'' @ github_token w @ ''@github.com/'') u,
                                            default_branch w)])
          \<and> (raises w RemotePush \<noteq> None \<longrightarrow> pushed r' = pushed r)"
proof -
  let ?auth = "replace ''https://github.com/'' (''https://'' @ github_token w @ ''@github.com/'') u"
  have body: "push_body w local_path commit_message False
                = stage_commit_push w q commit_message"
    using R r ch ok by (simp add: push_body_def is_git_repository_Repo no_changes_dirty)
  obtain w' r2 where s: "stage_commit_push w q commit_message = push_to_remote w' q"
    and r2: "map_of (repos w') q = Some r2" "origin_url r2 = origin_url r"
      "pushed r2 = pushed r" "raises w' = raises w" "github_token w' = github_token w"
      "default_branch w' = default_branch w"
    using stage_commit_push_reaches [OF r ok(3) ok(4), of commit_message]
    by (elim exE conjE)
  have "\<exists>r'. map_of (repos (snd (push_to_remote w' q))) q = Some r'
          \<and> origin_url r' = Some (replace ''https://github.com/''
                                     (''https://'' @ github_token w' @ ''@github.com/'') u)
          \<and> (raises w' RemotePush = None \<longrightarrow>
                fst (push_to_remote w' q) = Inr True
                \<and> pushed r' = pushed r2 @ [(replace ''https://github.com/''
                                     (''https://'' @ github_token w' @ ''@github.com/'') u,
                                            default_branch w')])
          \<and> (raises w' RemotePush \<noteq> None \<longrightarrow> pushed r' = pushed r2)"
    using r2 ok tok url by (intro push_to_remote_token) simp_all
  then obtain r' where r': "map_of (repos (snd (push_to_remote w' q))) q = Some r'"
      "origin_url r' = Some ?auth"
      "raises w RemotePush = None \<longrightarrow>
         fst (push_to_remote w' q) = Inr True \<and> pushed r' = pushed r @ [(?auth, default_branch w)]"
      "raises w RemotePush \<noteq> None \<longrightarrow> pushed r' = pushed r"
    using r2 by (elim exE conjE) simp
  have p: "startswith ?auth (''https://'' @ github_token w @ ''@github.com/'')"
    using url(2) replace_prefix [of "''https://github.com/''" u]
    by (simp add: startswith_def)
  have a: "map_of (repos (snd (push_changes w local_path commit_message False))) q = Some r'"
    using r'(1) by (simp add: push_changes_snd body s)
  have b: "raises w RemotePush = None \<longrightarrow>
             fst (push_changes w local_path commit_message False) = Inr True"
    using r'(3) by (simp add: push_changes_fst body s)
  have c: "raises w RemotePush = None \<longrightarrow>
             fst (push_changes w local_path commit_message False) = Inr True
             \<and> pushed r' = pushed r @ [(?auth, default_branch w)]"
    using b r'(3) by simp
  show ?thesis
    by (rule exI [of _ r']) (intro conjI a r'(2) p c r'(4))
qed

theorem push_changes_embeds_token_witness:
  "\<exists>r'. map_of (repos (snd (push_changes token_push_world ''repo'' ''update'' False)))
           [''home'', ''repo''] = Some r'
        \<and> origin_url r' = Some ''https://ghp_token@github.com/user/repo.git''
        \<and> pushed r' = [(''https://ghp_token@github.com/user/repo.git'', ''main'')]"
proof -
  have 1: "Repo token_push_world ''repo'' = Inr [''home'', ''repo'']" by code_simp
  have 2: "map_of (repos token_push_world) [''home'', ''repo''] = Some example_repo" by code_simp
  have 3: "dirty example_repo \<or> untracked_files example_repo \<noteq> []" by code_simp
  have 4: "raises token_push_world IsDirty = None" "raises token_push_world UntrackedFiles = None"
    "raises token_push_world GitAdd = None" "raises token_push_world IndexCommit = None"
    "raises token_push_world RemoteOrigin = None" "raises token_push_world RemoteUrl = None"
    "raises token_push_world SetUrl = None"
    by code_simp+
  have 5: "github_token token_push_world \<noteq> []" by code_simp
  have 6: "origin_url example_repo = Some ''https://github.com/user/repo.git''" by code_simp
  have 7: "startswith ''https://github.com/user/repo.git'' ''https://github.com/''" by code_simp
  have 8: "replace ''https://github.com/'' (''https://'' @ github_token token_push_world
             @ ''@github.com/'') ''https://github.com/user/repo.git''
           = ''https://ghp_token@github.com/user/repo.git''" by code_simp
  have 9: "raises token_push_world RemotePush = None" by code_simp
  have 10: "pushed example_repo = []" "default_branch token_push_world = ''main''" by code_simp+
  show ?thesis
    using push_changes_embeds_token [OF 1 2 3 4 5 6 7, of "''update''"]
    unfolding 8 using 9 10 by auto
qed

section \<open>The exceptions of the Git operations\<close>

lemma library_raisesD:
  "library_raises_exceptions w \<Longrightarrow> raises w c = Some e \<Longrightarrow> is_Exception (exn_cls e)"
  by (cases c) (auto simp: library_raises_exceptions_def all_git_calls_def)

lemma library_raises_cong:
  "raises w' = raises w \<Longrightarrow> library_raises_exceptions w' = library_raises_exceptions w"
  by (simp add: library_raises_exceptions_def)

lemma walk_exn: "walk fs cur cs = Inl e \<Longrightarrow> is_Exception (exn_cls e)"
  by (induction cs arbitrary: cur)
     (auto simp: is_Exception_def split: option.splits kind.splits if_splits)

lemma locate_exn: "locate w p = Inl e \<Longrightarrow> is_Exception (exn_cls e)"
  by (auto simp: locate_def dest: walk_exn)

lemma any_iterdir_exn: "any_iterdir w p = Inl e \<Longrightarrow> is_Exception (exn_cls e)"
  by (auto simp: any_iterdir_def split: sum.splits dest: locate_exn)

lemma os_mkdir_exn: "os_mkdir w p = Inl e \<Longrightarrow> is_Exception (exn_cls e)"
  by (auto simp: os_mkdir_def is_Exception_def split: sum.splits if_splits dest: locate_exn)

lemma os_mkdir_raises: "os_mkdir w p = Inr w' \<Longrightarrow> raises w' = raises w"
  by (auto simp: os_mkdir_def split: sum.splits if_splits)

lemma mkdir_exist_ok_exn: "mkdir_exist_ok w p = Inl e \<Longrightarrow> is_Exception (exn_cls e)"
  by (auto simp: mkdir_exist_ok_def split: sum.splits if_splits dest: os_mkdir_exn)

lemma mkdir_exist_ok_raises: "mkdir_exist_ok w p = Inr w' \<Longrightarrow> raises w' = raises w"
  by (auto simp: mkdir_exist_ok_def split: sum.splits if_splits dest: os_mkdir_raises)

lemma mkdir_parents_good:
  "(mkdir_parents w p = Inl e \<longrightarrow> is_Exception (exn_cls e))
   \<and> (mkdir_parents w p = Inr w' \<longrightarrow> raises w' = raises w)"
proof (induction w p arbitrary: e w' rule: mkdir_parents.induct)
  case (1 w p)
  show ?case
  proof (cases "os_mkdir w p")
    case (Inr w1)
    then show ?thesis by (auto simp: mkdir_parents.simps [of w p] dest: os_mkdir_raises)
  next
    case (Inl e1)
    note e1 = os_mkdir_exn [OF Inl]
    show ?thesis
    proof (cases "exn_cls e1 = FileNotFoundError \<and> p_tail p \<noteq> []")
      case False
      then show ?thesis using Inl e1
        by (auto simp: mkdir_parents.simps [of w p] split: if_splits)
    next
      case True
      show ?thesis
      proof (cases "mkdir_parents w (p\<lparr>p_tail := butlast (p_tail p)\<rparr>)")
        case (Inl e2)
        then have "is_Exception (exn_cls e2)" using 1 [of e1 e2] \<open>os_mkdir w p = Inl e1\<close> True
          by simp
        then show ?thesis using Inl \<open>os_mkdir w p = Inl e1\<close> True
          by (auto simp: mkdir_parents.simps [of w p])
      next
        case (Inr w2)
        then have "raises w2 = raises w" using 1 [of e1 _ w2] \<open>os_mkdir w p = Inl e1\<close> True
          by simp
        then show ?thesis using Inr \<open>os_mkdir w p = Inl e1\<close> True
          by (auto simp: mkdir_parents.simps [of w p]
              dest: mkdir_exist_ok_exn mkdir_exist_ok_raises)
      qed
    qed
  qed
qed

lemma input_good: "good w (input w)"
  by (simp add: good_def input_def is_Exception_def split: list.splits)

lemma log_raises [simp]: "raises (log l m w) = raises w"
  by (simp add: log_def)


lemma Repo_exn:
  "library_raises_exceptions w \<Longrightarrow> Repo w p = Inl e \<Longrightarrow> is_Exception (exn_cls e)"
  by (auto simp: Repo_def is_Exception_def split: option.splits sum.splits if_splits
      dest: library_raisesD)

lemma is_git_repository_total:
  "library_raises_exceptions w \<Longrightarrow> \<exists>b. is_git_repository w p = Inr b"
  by (auto simp: is_git_repository_def split: sum.splits dest: Repo_exn)

lemma lib_good:
  assumes "library_raises_exceptions w" and "\<And>r e. f r = Inl e \<Longrightarrow> is_Exception (exn_cls e)"
  shows "good w (lib w c q f)"
proof (cases "raises w c")
  case (Some e)
  then show ?thesis using assms(1) by (auto simp: good_def lib_def dest: library_raisesD)
next
  case None
  show ?thesis
  proof (cases "map_of (repos w) q")
    case n: None
    then show ?thesis using None by (simp add: good_def lib_def is_Exception_def)
  next
    case (Some r)
    then show ?thesis using None assms(2) [of r]
      by (cases "f r") (auto simp: good_def lib_def)
  qed
qed

lemma clone_from_exn:
  "library_raises_exceptions w \<Longrightarrow> clone_from w u p = Inl e \<Longrightarrow> is_Exception (exn_cls e)"
  by (auto simp: clone_from_def is_Exception_def split: option.splits sum.splits
      dest: library_raisesD)

lemma good_Inr [simp]: "good w (Inr a, w') = (raises w' = raises w)"
  by (simp add: good_def)

lemma good_Inl [simp]:
  "good w (Inl e, w') = (raises w' = raises w \<and> is_Exception (exn_cls e))"
  by (simp add: good_def)

lemma good_trans:
  "raises w1 = raises w \<Longrightarrow> good w1 r \<Longrightarrow> good w r"
  by (simp add: good_def)

lemma clone_check_existing_good:
  assumes "library_raises_exceptions w"
  shows "good w (clone_check_existing w p)"
proof -
  obtain b where b: "is_git_repository w p = Inr b"
    using is_git_repository_total [OF assms] by blast
  have i: "\<And>w1. raises w1 = raises w \<Longrightarrow> good w (input w1)"
    using input_good good_trans by blast
  show ?thesis
    using i [of "log WARNING (''Directory '' @ p @ '' already contains a Git repository'') w"]
      i [of "log WARNING (''Directory '' @ p @ '' is not empty'') w"]
    by (auto simp: clone_check_existing_def Let_def b good_def
        split: sum.splits bool.splits prod.splits dest: any_iterdir_exn)
qed

lemma clone_body_good:
  assumes "library_raises_exceptions w"
  shows "good w (clone_body w u p d)"
proof (cases "clone_check_existing w p")
  case (Pair x w1)
  have g: "good w (x, w1)" using clone_check_existing_good [OF assms, of p] Pair by simp
  then have r: "raises w1 = raises w" by (simp add: good_def)
  show ?thesis
  proof (cases x)
    case (Inl e)
    then show ?thesis using g Pair by (simp add: clone_body_def)
  next
    case (Inr go)
    show ?thesis
    proof (cases "mkdir_parents w1 (parent (Path p))")
      case (Inl e)
      then have "is_Exception (exn_cls e)" using mkdir_parents_good by blast
      then show ?thesis using Pair Inr Inl r by (simp add: clone_body_def split: bool.splits)
    next
      case m: (Inr w2)
      then have r2: "raises w2 = raises w" using mkdir_parents_good r by metis
      let ?w3 = "log INFO (''Cloning repository '' @ u @ '' to '' @ p @ ''...'') w2"
      have l3: "library_raises_exceptions ?w3"
        using assms r2 library_raises_cong [of ?w3 w] by simp
      show ?thesis
      proof (cases "clone_from ?w3 u p")
        case (Inl e)
        then have "is_Exception (exn_cls e)" using clone_from_exn [OF l3] by blast
        then show ?thesis using Pair Inr m Inl r r2 by (simp add: clone_body_def Let_def split: bool.splits)
      next
        case c: (Inr w4)
        then have "raises w4 = raises w" using r2
          by (auto simp: clone_from_def split: option.splits sum.splits)
        then show ?thesis using Pair Inr m c r by (simp add: clone_body_def Let_def split: bool.splits)
      qed
    qed
  qed
qed

lemma good_bind:
  assumes "library_raises_exceptions w" and "good w m"
    and "\<And>a w1. library_raises_exceptions w1 \<Longrightarrow> raises w1 = raises w \<Longrightarrow> good w1 (k a w1)"
  shows "good w (case m of (Inl e, w1) \<Rightarrow> (Inl e, w1) | (Inr a, w1) \<Rightarrow> k a w1)"
proof (cases m)
  case (Pair x w1)
  then have r: "raises w1 = raises w" using assms(2) by (simp add: good_def)
  then have l: "library_raises_exceptions w1" using assms(1) library_raises_cong by blast
  show ?thesis
  proof (cases x)
    case (Inl e)
    then show ?thesis using Pair assms(2) by simp
  next
    case (Inr a)
    then show ?thesis using Pair assms(3) [OF l r, of a] r by (simp add: good_def)
  qed
qed

lemma library_log [simp]:
  "library_raises_exceptions (log l m w) = library_raises_exceptions w"
  by (rule library_raises_cong) simp

lemma good_log [simp]: "good (log l m w) r = good w r"
  by (simp add: good_def)

lemma repo_is_dirty_good: "library_raises_exceptions w \<Longrightarrow> good w (repo_is_dirty w q)"
  unfolding repo_is_dirty_def by (rule lib_good) simp_all

lemma repo_untracked_files_good:
  "library_raises_exceptions w \<Longrightarrow> good w (repo_untracked_files w q)"
  unfolding repo_untracked_files_def by (rule lib_good) simp_all

lemma git_add_all_good: "library_raises_exceptions w \<Longrightarrow> good w (git_add_all w q)"
  unfolding git_add_all_def by (rule lib_good) simp_all

lemma index_commit_good: "library_raises_exceptions w \<Longrightarrow> good w (index_commit w q m)"
  unfolding index_commit_def by (rule lib_good) simp_all

lemma repo_remote_origin_good:
  "library_raises_exceptions w \<Longrightarrow> good w (repo_remote_origin w q)"
  unfolding repo_remote_origin_def
  by (rule lib_good) (auto simp: is_Exception_def split: option.splits)

lemma remote_url_good: "library_raises_exceptions w \<Longrightarrow> good w (remote_url w q)"
  unfolding remote_url_def
  by (rule lib_good) (auto simp: is_Exception_def split: option.splits)

lemma remote_set_url_good: "library_raises_exceptions w \<Longrightarrow> good w (remote_set_url w q u)"
  unfolding remote_set_url_def by (rule lib_good) simp_all

lemma remote_push_good: "library_raises_exceptions w \<Longrightarrow> good w (remote_push w q b)"
  unfolding remote_push_def
  by (rule lib_good) (auto simp: is_Exception_def split: option.splits)

lemma no_changes_good: "library_raises_exceptions w \<Longrightarrow> good w (no_changes w q)"
  unfolding no_changes_def
  by (intro good_bind repo_is_dirty_good)
     (auto intro!: good_bind repo_untracked_files_good)

lemma set_url_step_good:
  assumes "library_raises_exceptions w"
  shows "good w (case token of
                   None \<Rightarrow> (Inr (), w)
                 | Some tok \<Rightarrow>
                     (case remote_url w q of
                        (Inl e, w3) \<Rightarrow> (Inl e, w3)
                      | (Inr url, w3) \<Rightarrow>
                          if startswith url ''https://github.com/''
                          then remote_set_url w3 q
                                 (replace ''https://github.com/''
                                    (''https://'' @ tok @ ''@github.com/'') url)
                          else (Inr (), w3)))"
proof (cases token)
  case None
  then show ?thesis by simp
next
  case (Some tok)
  show ?thesis unfolding Some option.case
    by (intro good_bind remote_url_good assms) (auto intro: remote_set_url_good)
qed

lemma good_pair:
  "(\<And>t w2. m = (t, w2) \<Longrightarrow> good w (k t w2)) \<Longrightarrow> good w (case m of (t, w2) \<Rightarrow> k t w2)"
  by (cases m) simp

lemma get_github_token_raises: "get_github_token w1 = (token, w2) \<Longrightarrow> raises w2 = raises w1"
  by (auto simp: get_github_token_def split: if_splits)

lemma push_to_remote_good:
  assumes "library_raises_exceptions w"
  shows "good w (push_to_remote w q)"
  unfolding push_to_remote_def Let_def
proof (rule good_bind [OF assms repo_remote_origin_good [OF assms]], rule good_pair)
  fix a w1 token w2
  assume l1: "library_raises_exceptions w1" and g: "get_github_token w1 = (token, w2)"
  have r2: "raises w2 = raises w1" using g by (rule get_github_token_raises)
  have l2: "library_raises_exceptions w2" using l1 r2 library_raises_cong by blast
  have p: "\<And>u' w4. library_raises_exceptions w4 \<Longrightarrow>
            good w4 (case remote_push (log INFO ''Pushing changes to remote repository...'' w4)
                            q (get_default_branch w) of
                       (Inl e, w6) \<Rightarrow> (Inl e, w6)
                     | (Inr u'', w6) \<Rightarrow>
                         (Inr True, log INFO ''Successfully pushed changes to GitHub'' w6))"
  proof -
    fix u' :: unit and w4 assume l4: "library_raises_exceptions w4"
    have "good w4 (remote_push (log INFO ''Pushing changes to remote repository...'' w4)
                     q (get_default_branch w))"
      using remote_push_good [of "log INFO ''Pushing changes to remote repository...'' w4"] l4
      by simp
    then show "good w4 (case remote_push (log INFO ''Pushing changes to remote repository...'' w4)
                            q (get_default_branch w) of
                       (Inl e, w6) \<Rightarrow> (Inl e, w6)
                     | (Inr u'', w6) \<Rightarrow>
                         (Inr True, log INFO ''Successfully pushed changes to GitHub'' w6))"
      by (rule good_bind [OF l4]) simp
  qed
  show "good w1
         (case case token of None \<Rightarrow> (Inr (), w2)
               | Some tok \<Rightarrow>
                   case remote_url w2 q of (Inl e, w3) \<Rightarrow> (Inl e, w3)
                   | (Inr url, w3) \<Rightarrow>
                       if startswith url ''https://github.com/''
                       then remote_set_url w3 q
                              (replace ''https://github.com/''
                                 (''https://'' @ tok @ ''@github.com/'') url)
                       else (Inr (), w3) of
          (Inl e, w4) \<Rightarrow> (Inl e, w4)
          | (Inr u', w4) \<Rightarrow>
              case remote_push (log INFO ''Pushing changes to remote repository...'' w4) q
                     (get_default_branch w) of
              (Inl e, w6) \<Rightarrow> (Inl e, w6)
              | (Inr u'', w6) \<Rightarrow>
                  (Inr True, log INFO ''Successfully pushed changes to GitHub'' w6))"
    by (rule good_trans [OF r2], rule good_bind [OF l2 set_url_step_good [OF l2]]) (rule p)
qed

lemma stage_commit_push_good:
  assumes "library_raises_exceptions w"
  shows "good w (stage_commit_push w q m)"
  unfolding stage_commit_push_def Let_def
proof (rule good_bind [OF assms git_add_all_good [OF assms]])
  fix a :: unit and w1 assume l1: "library_raises_exceptions w1"
  have c: "good w1 (index_commit (log INFO ''Staged all changes'' w1) q m)"
    using index_commit_good [of "log INFO ''Staged all changes'' w1"] l1 by simp
  show "good w1 (case index_commit (log INFO ''Staged all changes'' w1) q m of
                   (Inl e, w3) \<Rightarrow> (Inl e, w3)
                 | (Inr u', w3) \<Rightarrow>
                     push_to_remote
                       (log INFO (''Committed changes with message: ''
                          @ [CHR 0x27] @ m @ [CHR 0x27]) w3) q)"
  proof (rule good_bind [OF l1 c])
    fix a' :: unit and w3 assume l3: "library_raises_exceptions w3"
    show "good w3 (push_to_remote (log INFO (''Committed changes with message: ''
                          @ [CHR 0x27] @ m @ [CHR 0x27]) w3) q)"
      using push_to_remote_good [of "log INFO (''Committed changes with message: ''
                          @ [CHR 0x27] @ m @ [CHR 0x27]) w3" q] l3 by simp
  qed
qed

lemma push_body_good:
  assumes "library_raises_exceptions w"
  shows "good w (push_body w p m d)"
proof -
  obtain b where b: "is_git_repository w p = Inr b"
    using is_git_repository_total [OF assms] by blast
  show ?thesis
  proof (cases b)
    case False
    then show ?thesis using b by (simp add: push_body_def)
  next
    case True
    show ?thesis
    proof (cases "Repo w p")
      case (Inl e)
      then show ?thesis using b True Repo_exn [OF assms Inl] by (simp add: push_body_def)
    next
      case (Inr q)
      obtain x w1 where n: "no_changes w q = (x, w1)" by (cases "no_changes w q")
      have g: "good w (x, w1)" using no_changes_good [OF assms, of q] n by simp
      then have r1: "raises w1 = raises w" by (simp add: good_def)
      then have l1: "library_raises_exceptions w1" using assms library_raises_cong by blast
      show ?thesis
      proof (cases x)
        case (Inl e)
        then show ?thesis using b True Inr n g by (simp add: push_body_def)
      next
        case x: (Inr c)
        have "good w (stage_commit_push w1 q m)"
          using stage_commit_push_good [OF l1] r1 good_trans by blast
        then show ?thesis using b True Inr n x r1
          by (simp add: push_body_def split: bool.splits)
      qed
    qed
  qed
qed

text \<open>
  C6. \<open>clone_repository\<close> and \<open>push_changes\<close> never pass an exception on to the caller:
  in every world where the Git library raises exceptions that derive from \<open>Exception\<close>
  (whichever of its calls raise), and for every input, both return a boolean; and every
  exception raised in their body is caught, turned into one message logged as an error,
  and answered by \<open>False\<close>.
\<close>

theorem git_operations_never_raise:
  assumes "library_raises_exceptions w"
  shows "(\<exists>b. fst (clone_repository w repo_url local_path dry_run) = Inr b)
       \<and> (\<exists>b. fst (push_changes w local_path commit_message dry_run) = Inr b)
       \<and> (\<forall>e. fst (clone_body w repo_url local_path dry_run) = Inl e \<longrightarrow>
              clone_repository w repo_url local_path dry_run
                = (Inr False, log ERROR (clone_error_message repo_url e)
                                (snd (clone_body w repo_url local_path dry_run))))
       \<and> (\<forall>e. fst (push_body w local_path commit_message dry_run) = Inl e \<longrightarrow>
              push_changes w local_path commit_message dry_run
                = (Inr False, log ERROR (push_error_message e)
                                (snd (push_body w local_path commit_message dry_run))))"
proof -
  obtain x w1 where c: "clone_body w repo_url local_path dry_run = (x, w1)"
    by (cases "clone_body w repo_url local_path dry_run")
  obtain y w2 where p: "push_body w local_path commit_message dry_run = (y, w2)"
    by (cases "push_body w local_path commit_message dry_run")
  have gc: "good w (x, w1)" using clone_body_good [OF assms, of repo_url local_path dry_run] c
    by simp
  have gp: "good w (y, w2)"
    using push_body_good [OF assms, of local_path commit_message dry_run] p by simp
  have 1: "\<exists>b. fst (clone_repository w repo_url local_path dry_run) = Inr b"
    using gc by (cases x) (auto simp: clone_repository_def c)
  have 2: "\<exists>b. fst (push_changes w local_path commit_message dry_run) = Inr b"
    using gp by (cases y) (auto simp: push_changes_def p)
  have 3: "\<forall>e. fst (clone_body w repo_url local_path dry_run) = Inl e \<longrightarrow>
              clone_repository w repo_url local_path dry_run
                = (Inr False, log ERROR (clone_error_message repo_url e)
                                (snd (clone_body w repo_url local_path dry_run)))"
    using gc by (cases x) (simp_all add: clone_repository_def c)
  have 4: "\<forall>e. fst (push_body w local_path commit_message dry_run) = Inl e \<longrightarrow>
              push_changes w local_path commit_message dry_run
                = (Inr False, log ERROR (push_error_message e)
                                (snd (push_body w local_path commit_message dry_run)))"
    using gp by (cases y) (simp_all add: push_changes_def p)
  show ?thesis by (intro conjI 1 2 3 4)
qed

theorem git_operations_never_raise_witness:
  "fst (clone_repository failing_clone_world ''https://github.com/user/repo'' ''repo2'' False)
     = Inr False
   \<and> last (logs (snd (clone_repository failing_clone_world ''https://github.com/user/repo''
                        ''repo2'' False)))
       = (ERROR, ''Repository not found: https://github.com/user/repo'')
   \<and> fst (push_changes failing_push_world ''repo'' ''update'' False) = Inr False
   \<and> last (logs (snd (push_changes failing_push_world ''repo'' ''update'' False)))
       = (ERROR, ''Authentication failed. Please check your GitHub token.'')"
proof -
  have l1: "library_raises_exceptions failing_clone_world" by code_simp
  have l2: "library_raises_exceptions failing_push_world" by code_simp
  have b1: "fst (clone_body failing_clone_world ''https://github.com/user/repo'' ''repo2'' False)
            = Inl (Exc GitCommandError ''remote: Repository not found.'')" by code_simp
  have b2: "fst (push_body failing_push_world ''repo'' ''update'' False)
            = Inl (Exc GitCommandError ''Authentication failed'')" by code_simp
  have m1: "clone_error_message ''https://github.com/user/repo''
              (Exc GitCommandError ''remote: Repository not found.'')
            = ''Repository not found: https://github.com/user/repo''" by code_simp
  have m2: "push_error_message (Exc GitCommandError ''Authentication failed'')
            = ''Authentication failed. Please check your GitHub token.''" by code_simp
  have c: "clone_repository failing_clone_world ''https://github.com/user/repo'' ''repo2'' False
           = (Inr False, log ERROR (clone_error_message ''https://github.com/user/repo''
                                     (Exc GitCommandError ''remote: Repository not found.''))
               (snd (clone_body failing_clone_world ''https://github.com/user/repo'' ''repo2''
                       False)))"
    by (rule git_operations_never_raise [OF l1, THEN conjunct2, THEN conjunct2, THEN conjunct1,
          rule_format, OF b1])
  have p: "push_changes failing_push_world ''repo'' ''update'' False
           = (Inr False, log ERROR (push_error_message (Exc GitCommandError ''Authentication failed''))
               (snd (push_body failing_push_world ''repo'' ''update'' False)))"
    by (rule git_operations_never_raise [OF l2, THEN conjunct2, THEN conjunct2, THEN conjunct2,
          rule_format, OF b2])
  show ?thesis unfolding c p m1 m2 by (simp add: log_def)
qed

end
